theory Spec2Isabelle
  imports Main "HOL-Library.Sublist"
begin

section \<open>JavaScript strings and values\<close>

text \<open>
  A JavaScript string is modelled by a \<open>string\<close> whose characters are the code units
  \<open>0x00\<close> to \<open>0xFF\<close> (the Latin-1 range). An optional value (\<open>undefined\<close> or absent) is
  \<open>None\<close>. The operators \<open>||\<close>, \<open>&&\<close> and \<open>!\<close> test truthiness: a string is truthy when it
  is not empty.
\<close>

definition truthy :: "string option \<Rightarrow> bool" where
  "truthy v = (case v of None \<Rightarrow> False | Some s \<Rightarrow> s \<noteq> [])"

text \<open>\<open>v ?? d\<close>: the default only for an absent value.\<close>

definition nullish :: "string option \<Rightarrow> string \<Rightarrow> string" where
  "nullish v d = (case v of None \<Rightarrow> d | Some s \<Rightarrow> s)"

text \<open>\<open>Array.prototype.join\<close>.\<close>

fun join :: "string \<Rightarrow> string list \<Rightarrow> string" where
  "join sep [] = []"
| "join sep [x] = x"
| "join sep (x # y # ys) = x @ sep @ join sep (y # ys)"

text \<open>\<open>String.prototype.split\<close> with a one-character separator: never an empty array.\<close>

fun split_str :: "char \<Rightarrow> string \<Rightarrow> string list" where
  "split_str sep [] = [[]]"
| "split_str sep (c # cs) =
     (if c = sep then [] # split_str sep cs
      else (case split_str sep cs of [] \<Rightarrow> [[c]] | p # ps \<Rightarrow> (c # p) # ps))"

text \<open>
  \<open>String.prototype.toLowerCase\<close> on Latin-1: the upper-case letters are \<open>A\<close> to \<open>Z\<close>
  (65 to 90) and \<open>0xC0\<close> to \<open>0xDE\<close> without the multiplication sign \<open>0xD7\<close>; each lies 32
  below its lower-case letter, and 32 is the bit that is clear in all of them.
\<close>

definition isUpper :: "char \<Rightarrow> bool" where
  "isUpper c = (let n = (of_char c :: nat)
                in (65 \<le> n \<and> n \<le> 90) \<or> (192 \<le> n \<and> n \<le> 222 \<and> n \<noteq> 215))"

fun toLowerCase_char :: "char \<Rightarrow> char" where
  "toLowerCase_char (Char b0 b1 b2 b3 b4 b5 b6 b7) =
     (if isUpper (Char b0 b1 b2 b3 b4 b5 b6 b7) then Char b0 b1 b2 b3 b4 True b6 b7
      else Char b0 b1 b2 b3 b4 b5 b6 b7)"

definition toLowerCase :: "string \<Rightarrow> string" where
  "toLowerCase s = map toLowerCase_char s"

text \<open>
  \<open>String.prototype.trim\<close>: the white space and line terminators of the Latin-1 range are
  TAB, LF, VT, FF, CR, SP and NBSP.
\<close>

definition isWhiteSpace :: "char \<Rightarrow> bool" where
  "isWhiteSpace c = (c \<in> set [CHR 0x09, CHR 0x0A, CHR 0x0B, CHR 0x0C, CHR 0x0D, CHR 0x20, CHR 0xA0])"

definition trim :: "string \<Rightarrow> string" where
  "trim s = rev (dropWhile isWhiteSpace (rev (dropWhile isWhiteSpace s)))"

text \<open>\<open>String.prototype.includes\<close>.\<close>

fun includes_str :: "string \<Rightarrow> string \<Rightarrow> bool" where
  "includes_str [] sub = (sub = [])"
| "includes_str (c # cs) sub = (prefix sub (c # cs) \<or> includes_str cs sub)"

section \<open>Company derivation (utils/email.ts)\<close>

text \<open>
  \<open>email.match(/@([^>]+)>?$/)\<close>. The engine tries the start positions from the left. At an
  \<open>@\<close> the greedy group \<open>[^>]+\<close> takes the longest run of characters other than \<open>>\<close>; the
  match succeeds when that run is not empty and is followed by the end of the input or by one
  \<open>>\<close> and the end. Giving characters back never helps: the character after a shorter run is
  not \<open>>\<close> and not the end. \<open>tail_match\<close> is the attempt at one \<open>@\<close>, on the text after it;
  \<open>regex_match\<close> returns the captured group of the leftmost match.
\<close>

definition tail_match :: "string \<Rightarrow> string option" where
  "tail_match r =
     (let g = takeWhile (\<lambda>c. c \<noteq> CHR ''>'') r;
          rest = dropWhile (\<lambda>c. c \<noteq> CHR ''>'') r
      in if g \<noteq> [] \<and> (rest = [] \<or> rest = ''>'') then Some g else None)"

fun regex_match :: "string \<Rightarrow> string option" where
  "regex_match [] = None"
| "regex_match (c # cs) =
     (if c = CHR ''@''
      then (case tail_match cs of Some g \<Rightarrow> Some g | None \<Rightarrow> regex_match cs)
      else regex_match cs)"

text \<open>\<open>if (parts.length > 2) parts.shift(); return parts[0]\<close>.\<close>

definition first_label :: "string list \<Rightarrow> string option" where
  "first_label parts =
     (case (if length parts > 2 then tl parts else parts) of [] \<Rightarrow> None | p # _ \<Rightarrow> Some p)"

definition extractCompanyFromEmail :: "string \<Rightarrow> string option" where
  "extractCompanyFromEmail email =
     (case regex_match email of
        None \<Rightarrow> None
      | Some g \<Rightarrow> (let domain = toLowerCase g; parts = split_str (CHR ''.'') domain
                  in first_label parts))"

text \<open>
  The derivation as the specification words it, for comparison with the code: the substring
  after the last \<open>@\<close>, up to an optional trailing bracket, lower-cased, split on the dot, the
  leading label dropped when more than two remain, the first remaining label returned.
\<close>

definition after_last_at :: "string \<Rightarrow> string option" where
  "after_last_at s =
     (if CHR ''@'' \<in> set s then Some (rev (takeWhile (\<lambda>c. c \<noteq> CHR ''@'') (rev s))) else None)"

definition strip_trailing_bracket :: "string \<Rightarrow> string" where
  "strip_trailing_bracket s = (if s \<noteq> [] \<and> last s = CHR ''>'' then butlast s else s)"

definition spec_company :: "string \<Rightarrow> string option" where
  "spec_company s =
     (case after_last_at s of
        None \<Rightarrow> None
      | Some t \<Rightarrow> first_label (split_str (CHR ''.'') (toLowerCase (strip_trailing_bracket t))))"

section \<open>Errors, the console and the external services\<close>

text \<open>
  A thrown value is an \<open>error\<close> with its message. The constructor records where it was
  raised: by the code itself (\<open>new Error(...)\<close>), by the D1 database (the Content Store), by
  the embedding model, or by the Vectorize index.
\<close>

datatype error = Error string | D1Error string | AiError string | VectorizeError string

fun message :: "error \<Rightarrow> string" where
  "message (Error m) = m"
| "message (D1Error m) = m"
| "message (AiError m) = m"
| "message (VectorizeError m) = m"

datatype console_entry = ConsoleLog string | ConsoleError string error

text \<open>
  A call that leaves the process: a prepared D1 statement with its bound parameters, a request
  to the embedding model, an upsert or a deletion in the Vectorize index (namespace, id).
\<close>

datatype call =
    D1Query string "string list"
  | AiRun string
  | VectorizeUpsert string string
  | VectorizeDelete string string

text \<open>The tables of \<open>initializeDatabase\<close> (utils/db.ts): nullable columns are options.\<close>

record MemoryRow =
  m_id :: string
  m_userId :: string
  m_content :: string
  m_created_at :: string

record EmailRecord =
  e_id :: string
  e_userId :: string
  e_memoryId :: string
  e_sender :: "string option"
  e_recipients :: "string option"
  e_subject :: "string option"
  e_date :: "string option"
  e_company :: "string option"
  e_messageId :: "string option"
  e_inReplyTo :: "string option"
  e_created_at :: string

text \<open>
  An entry of the Vectorize index, keyed by namespace and id. The vector is the embedding of
  \<open>v_text\<close>, which stands for it.
\<close>

record VectorEntry =
  v_namespace :: string
  v_id :: string
  v_text :: string
  v_metadata :: "(string \<times> string) list"

text \<open>
  \<open>Env\<close>: the bindings \<open>DB\<close> (the two tables and the clock behind \<open>CURRENT_TIMESTAMP\<close>),
  \<open>VECTORIZE\<close> and \<open>AI\<close>, with the console. \<open>outcomes\<close> scripts the external calls to come,
  one entry per call: \<open>Some msg\<close> makes the call fail with that message, \<open>None\<close> (or an
  exhausted script) lets it through. \<open>calls\<close> is the trace of the external calls made.
\<close>

record Env =
  memories :: "MemoryRow list"
  emails :: "EmailRecord list"
  now :: string
  vectors :: "VectorEntry list"
  outcomes :: "string option list"
  calls :: "call list"
  console :: "console_entry list"

definition external :: "call \<Rightarrow> Env \<Rightarrow> string option \<times> Env" where
  "external c env =
     (case outcomes env of
        [] \<Rightarrow> (None, env\<lparr>calls := calls env @ [c]\<rparr>)
      | out # rest \<Rightarrow> (out, env\<lparr>calls := calls env @ [c], outcomes := rest\<rparr>))"

definition console_log :: "string \<Rightarrow> Env \<Rightarrow> Env" where
  "console_log s env = env\<lparr>console := console env @ [ConsoleLog s]\<rparr>"

definition console_error :: "string \<Rightarrow> error \<Rightarrow> Env \<Rightarrow> Env" where
  "console_error s e env = env\<lparr>console := console env @ [ConsoleError s e]\<rparr>"

subsection \<open>The D1 database\<close>

record D1Meta =
  changes :: nat

record D1Result =
  results :: "EmailRecord list"
  meta :: "D1Meta option"

text \<open>
  \<open>env.DB.prepare(sql).bind(params).run()\<close> (and \<open>.all()\<close>): the call is made; when it goes
  through, \<open>sem\<close>, the meaning of the statement on the tables, yields the result and the new
  tables, or the error of a violated constraint.
\<close>

definition d1 ::
  "string \<Rightarrow> string list \<Rightarrow> (Env \<Rightarrow> error + D1Result \<times> Env) \<Rightarrow> Env \<Rightarrow> (error + D1Result) \<times> Env"
where
  "d1 sql params sem env =
     (case external (D1Query sql params) env of
        (Some msg, env1) \<Rightarrow> (Inl (D1Error msg), env1)
      | (None, env1) \<Rightarrow>
          (case sem env1 of
             Inl e \<Rightarrow> (Inl e, env1)
           | Inr (r, env2) \<Rightarrow> (Inr r, env2)))"

text \<open>The statements. \<open>id\<close> is the primary key of both tables.\<close>

definition sql_insert_memories :: "string \<Rightarrow> string \<Rightarrow> string \<Rightarrow> Env \<Rightarrow> error + D1Result \<times> Env" where
  "sql_insert_memories i u c env =
     (if i \<in> set (map m_id (memories env))
      then Inl (D1Error ''UNIQUE constraint failed: memories.id'')
      else Inr (\<lparr>results = [], meta = Some \<lparr>changes = 1\<rparr>\<rparr>,
                env\<lparr>memories := memories env @
                  [\<lparr>m_id = i, m_userId = u, m_content = c, m_created_at = now env\<rparr>]\<rparr>))"

definition sql_delete_memories :: "string \<Rightarrow> string \<Rightarrow> Env \<Rightarrow> error + D1Result \<times> Env" where
  "sql_delete_memories i u env =
     (let hit = (\<lambda>r. m_id r = i \<and> m_userId r = u)
      in Inr (\<lparr>results = [], meta = Some \<lparr>changes = length (filter hit (memories env))\<rparr>\<rparr>,
              env\<lparr>memories := filter (\<lambda>r. \<not> hit r) (memories env)\<rparr>))"

definition sql_update_memories :: "string \<Rightarrow> string \<Rightarrow> string \<Rightarrow> Env \<Rightarrow> error + D1Result \<times> Env" where
  "sql_update_memories c i u env =
     (let hit = (\<lambda>r. m_id r = i \<and> m_userId r = u)
      in Inr (\<lparr>results = [], meta = Some \<lparr>changes = length (filter hit (memories env))\<rparr>\<rparr>,
              env\<lparr>memories := map (\<lambda>r. if hit r then r\<lparr>m_content := c\<rparr> else r) (memories env)\<rparr>))"

definition sql_insert_emails :: "EmailRecord \<Rightarrow> Env \<Rightarrow> error + D1Result \<times> Env" where
  "sql_insert_emails row env =
     (if e_id row \<in> set (map e_id (emails env))
      then Inl (D1Error ''UNIQUE constraint failed: emails.id'')
      else Inr (\<lparr>results = [], meta = Some \<lparr>changes = 1\<rparr>\<rparr>,
                env\<lparr>emails := emails env @ [row]\<rparr>))"

definition sql_select_emails_in :: "string list \<Rightarrow> string \<Rightarrow> Env \<Rightarrow> error + D1Result \<times> Env" where
  "sql_select_emails_in ids u env =
     Inr (\<lparr>results = filter (\<lambda>r. e_memoryId r \<in> set ids \<and> e_userId r = u) (emails env),
            meta = Some \<lparr>changes = 0\<rparr>\<rparr>, env)"

section \<open>utils/db.ts\<close>

definition storeMemoryInD1 :: "string \<Rightarrow> string \<Rightarrow> Env \<Rightarrow> string \<Rightarrow> (error + string) \<times> Env" where
  "storeMemoryInD1 content userId env memoryId =
     (case d1 ''INSERT INTO memories (id, userId, content) VALUES (?, ?, ?)''
             [memoryId, userId, content] (sql_insert_memories memoryId userId content) env of
        (Inl e, env1) \<Rightarrow> (Inl e, console_error ''Error storing memory in D1:'' e env1)
      | (Inr _, env1) \<Rightarrow>
          (Inr memoryId, console_log (''Memory stored in D1 with ID: '' @ memoryId) env1))"

definition deleteMemoryFromD1 :: "string \<Rightarrow> string \<Rightarrow> Env \<Rightarrow> (error + unit) \<times> Env" where
  "deleteMemoryFromD1 memoryId userId env =
     (case d1 ''DELETE FROM memories WHERE id = ? AND userId = ?''
             [memoryId, userId] (sql_delete_memories memoryId userId) env of
        (Inl e, env1) \<Rightarrow> (Inl e, console_error ''Error deleting memory from D1:'' e env1)
      | (Inr _, env1) \<Rightarrow>
          (Inr (), console_log (''Memory '' @ memoryId @ '' deleted from D1'') env1))"

definition updateMemoryInD1 :: "string \<Rightarrow> string \<Rightarrow> string \<Rightarrow> Env \<Rightarrow> (error + unit) \<times> Env" where
  "updateMemoryInD1 memoryId userId newContent env =
     (case d1 ''UPDATE memories SET content = ? WHERE id = ? AND userId = ?''
             [newContent, memoryId, userId] (sql_update_memories newContent memoryId userId) env of
        (Inl e, env1) \<Rightarrow> (Inl e, console_error ''Error updating memory in D1:'' e env1)
      | (Inr result, env1) \<Rightarrow>
          (if (case meta result of None \<Rightarrow> True | Some m \<Rightarrow> changes m = 0)
           then (let e = Error (''Memory with ID '' @ memoryId @ '' not found for user '' @ userId @
                                '' or content unchanged.'')
                 in (Inl e, console_error ''Error updating memory in D1:'' e env1))
           else (Inr (), console_log (''Memory '' @ memoryId @ '' updated in D1'') env1)))"

section \<open>utils/vectorize.ts\<close>

text \<open>
  The functions that \<open>utils/email.ts\<close> and \<open>index.ts\<close> import from \<open>./vectorize\<close>; the file
  itself is not among the sources.
\<close>

text \<open>
  Modelled from the spec: the Embedding Provider, \<open>embed(text)\<close>, which may fail (treated as a
  hard failure by the caller).
\<close>

definition generateEmbeddings :: "string \<Rightarrow> Env \<Rightarrow> (error + unit) \<times> Env" where
  "generateEmbeddings t env =
     (case external (AiRun t) env of
        (Some msg, env1) \<Rightarrow> (Inl (AiError msg), env1)
      | (None, env1) \<Rightarrow> (Inr (), env1))"

text \<open>
  Modelled from the spec: the Vector Index, \<open>upsert(id, vector, attributes, namespace)\<close> and
  \<open>delete(id, namespace)\<close>, on entries keyed by namespace and id.
\<close>

definition vectorize_upsert :: "VectorEntry \<Rightarrow> Env \<Rightarrow> (error + unit) \<times> Env" where
  "vectorize_upsert entry env =
     (case external (VectorizeUpsert (v_namespace entry) (v_id entry)) env of
        (Some msg, env1) \<Rightarrow> (Inl (VectorizeError msg), env1)
      | (None, env1) \<Rightarrow>
          (Inr (), env1\<lparr>vectors :=
             filter (\<lambda>v. \<not> (v_namespace v = v_namespace entry \<and> v_id v = v_id entry)) (vectors env1)
               @ [entry]\<rparr>))"

definition vectorize_delete :: "string \<Rightarrow> string \<Rightarrow> Env \<Rightarrow> (error + unit) \<times> Env" where
  "vectorize_delete namespace i env =
     (case external (VectorizeDelete namespace i) env of
        (Some msg, env1) \<Rightarrow> (Inl (VectorizeError msg), env1)
      | (None, env1) \<Rightarrow>
          (Inr (), env1\<lparr>vectors :=
             filter (\<lambda>v. \<not> (v_namespace v = namespace \<and> v_id v = i)) (vectors env1)\<rparr>))"

text \<open>
  Modelled from the spec: steps 3 and 4 of \<open>create\<close>, "request an embedding vector for
  content from the Embedding Provider" and "upsert (id, vector, attributes) into the Vector
  Index under namespace ownerId"; a failure of either is not swallowed, it propagates to the
  caller.
\<close>

definition storeMemory ::
  "string \<Rightarrow> string \<Rightarrow> Env \<Rightarrow> (string \<times> string) list \<Rightarrow> string \<Rightarrow> (error + string) \<times> Env"
where
  "storeMemory t userId env metadata memoryId =
     (case generateEmbeddings t env of
        (Inl e, env1) \<Rightarrow> (Inl e, env1)
      | (Inr _, env1) \<Rightarrow>
          (case vectorize_upsert
                  \<lparr>v_namespace = userId, v_id = memoryId, v_text = t, v_metadata = metadata\<rparr> env1 of
             (Inl e, env2) \<Rightarrow> (Inl e, env2)
           | (Inr _, env2) \<Rightarrow> (Inr memoryId, env2)))"

text \<open>
  Modelled from the spec: the second half of \<open>update\<close>, "recompute the embedding and upsert
  into the Vector Index"; the entry keeps the attributes it has. Its failure is thrown to the
  caller, which decides what to do with it.
\<close>

definition updateMemoryVector :: "string \<Rightarrow> string \<Rightarrow> string \<Rightarrow> Env \<Rightarrow> (error + unit) \<times> Env" where
  "updateMemoryVector memoryId newContent userId env =
     (case generateEmbeddings newContent env of
        (Inl e, env1) \<Rightarrow> (Inl e, env1)
      | (Inr _, env1) \<Rightarrow>
          vectorize_upsert
            \<lparr>v_namespace = userId, v_id = memoryId, v_text = newContent,
             v_metadata =
               (case find (\<lambda>v. v_namespace v = userId \<and> v_id v = memoryId) (vectors env1) of
                  None \<Rightarrow> []
                | Some v \<Rightarrow> v_metadata v)\<rparr>
            env1)"

text \<open>
  Modelled from the spec: the second half of \<open>delete\<close>, the deletion of the entry from the
  Vector Index; its failure is thrown to the caller.
\<close>

definition deleteVectorById :: "string \<Rightarrow> string \<Rightarrow> Env \<Rightarrow> (error + unit) \<times> Env" where
  "deleteVectorById memoryId userId env = vectorize_delete userId memoryId env"

text \<open>
  \<open>searchMemories(query, userId, env)\<close> embeds the query and ranks the entries of the
  namespace by similarity, a computation on floating-point vectors. Its outcome, the thrown
  error or the ranked list of matches, is a parameter of the search below; the type of the
  scores is left open.
\<close>

record 's VectorMatch =
  match_id :: string
  score :: 's

section \<open>Objects used as dictionaries\<close>

text \<open>
  \<open>const records: Record<string, EmailRecord> = {}\<close> is an ordinary object: it inherits from
  \<open>Object.prototype\<close>. \<open>records[k] = row\<close> creates or replaces the own property \<open>k\<close>, except
  for \<open>k = "__proto__"\<close>, the setter that makes \<open>row\<close> the prototype of \<open>records\<close>. Reading
  \<open>records[k]\<close> yields the own property; failing that, the property \<open>k\<close> found along the
  prototype chain: a column of the row installed as prototype (a string or \<open>null\<close>), or a
  member of \<open>Object.prototype\<close> (a function, or for \<open>__proto__\<close> the prototype itself);
  failing that, \<open>undefined\<close>.
\<close>

record JsObject =
  own :: "(string \<times> EmailRecord) list"
  proto :: "EmailRecord option"

definition empty_object :: JsObject where
  "empty_object = \<lparr>own = [], proto = None\<rparr>"

definition set_property :: "JsObject \<Rightarrow> string \<Rightarrow> EmailRecord \<Rightarrow> JsObject" where
  "set_property obj k row =
     (if k = ''__proto__'' then obj\<lparr>proto := Some row\<rparr> else obj\<lparr>own := (k, row) # own obj\<rparr>)"

definition object_prototype_keys :: "string list" where
  "object_prototype_keys =
     [''constructor'', ''hasOwnProperty'', ''isPrototypeOf'', ''propertyIsEnumerable'',
      ''toLocaleString'', ''toString'', ''valueOf'', ''__proto__'',
      ''__defineGetter__'', ''__defineSetter__'', ''__lookupGetter__'', ''__lookupSetter__'']"

text \<open>The own properties of a row returned by D1: its columns.\<close>

definition column :: "EmailRecord \<Rightarrow> string \<Rightarrow> string option option" where
  "column row k =
     map_of
       [(''id'', Some (e_id row)), (''userId'', Some (e_userId row)),
        (''memoryId'', Some (e_memoryId row)), (''sender'', e_sender row),
        (''recipients'', e_recipients row), (''subject'', e_subject row), (''date'', e_date row),
        (''company'', e_company row), (''messageId'', e_messageId row),
        (''inReplyTo'', e_inReplyTo row), (''created_at'', Some (e_created_at row))] k"

text \<open>
  What a read yields, as far as the search tells the values apart: a row; a truthy value that
  is not a row (it has no \<open>company\<close> and no field of a record); or a falsy value.
\<close>

datatype property = Row EmailRecord | Inherited | Undefined

definition get_property :: "JsObject \<Rightarrow> string \<Rightarrow> property" where
  "get_property obj k =
     (case map_of (own obj) k of
        Some row \<Rightarrow> Row row
      | None \<Rightarrow>
          (case proto obj of
             None \<Rightarrow> (if k \<in> set object_prototype_keys then Inherited else Undefined)
           | Some p \<Rightarrow>
               (if k = ''__proto__'' then Row p
                else (case column p k of
                        Some v \<Rightarrow> (if truthy v then Inherited else Undefined)
                      | None \<Rightarrow>
                          (if k \<in> set object_prototype_keys then Inherited else Undefined)))))"

section \<open>utils/email.ts\<close>

record EmailData =
  subject :: string
  body :: string
  sender :: string
  recipients :: "string list option"
  date :: "string option"
  company :: "string option"
  messageId :: "string option"
  inReplyTo :: "string option"

text \<open>\<open>uuid\<close> is the value that \<open>uuidv4()\<close> returns in this call.\<close>

definition storeEmailMemory :: "EmailData \<Rightarrow> string \<Rightarrow> Env \<Rightarrow> string \<Rightarrow> (error + string) \<times> Env" where
  "storeEmailMemory email userId env uuid =
     (let memoryId = uuid;
          company' = (if truthy (company email) then company email
                      else extractCompanyFromEmail (sender email));
          recipients' = (case recipients email of None \<Rightarrow> [] | Some rs \<Rightarrow> join '','' rs);
          t = subject email @ [CHR 0x0A] @ body email @ [CHR 0x0A] @ ''From: '' @ sender email @
              [CHR 0x0A] @ ''To: '' @ recipients'
      in case storeMemoryInD1 t userId env memoryId of
           (Inl e, env1) \<Rightarrow> (Inl e, env1)
         | (Inr _, env1) \<Rightarrow>
             (case storeMemory t userId env1
                     [(''subject'', subject email), (''sender'', sender email),
                      (''recipients'', recipients'), (''date'', nullish (date email) []),
                      (''company'', nullish company' []),
                      (''messageId'', nullish (messageId email) []),
                      (''inReplyTo'', nullish (inReplyTo email) [])]
                     memoryId of
                (Inl e, env2) \<Rightarrow> (Inl e, env2)
              | (Inr _, env2) \<Rightarrow>
                  (case d1 ''INSERT INTO emails (id, userId, memoryId, sender, recipients, subject, date, company, messageId, inReplyTo) VALUES (?, ?, ?, ?, ?, ?, ?, ?, ?, ?)''
                          [memoryId, userId, memoryId, sender email, recipients', subject email,
                           nullish (date email) [], nullish company' [],
                           nullish (messageId email) [], nullish (inReplyTo email) []]
                          (sql_insert_emails
                             \<lparr>e_id = memoryId, e_userId = userId, e_memoryId = memoryId,
                              e_sender = Some (sender email), e_recipients = Some recipients',
                              e_subject = Some (subject email),
                              e_date = Some (nullish (date email) []),
                              e_company = Some (nullish company' []),
                              e_messageId = Some (nullish (messageId email) []),
                              e_inReplyTo = Some (nullish (inReplyTo email) []),
                              e_created_at = now env2\<rparr>)
                          env2 of
                     (Inl e, env3) \<Rightarrow> (Inl e, env3)
                   | (Inr _, env3) \<Rightarrow> (Inr memoryId, env3))))"

definition getEmailsMetadata :: "string list \<Rightarrow> string \<Rightarrow> Env \<Rightarrow> (error + JsObject) \<times> Env" where
  "getEmailsMetadata memoryIds userId env =
     (if length memoryIds = 0 then (Inr empty_object, env)
      else
        (let placeholders = join '','' (map (\<lambda>_. ''?'') memoryIds);
             query = ''SELECT * FROM emails WHERE memoryId IN ('' @ placeholders @
                     '') AND userId = ?''
         in case d1 query (memoryIds @ [userId]) (sql_select_emails_in memoryIds userId) env of
              (Inl e, env1) \<Rightarrow> (Inl e, env1)
            | (Inr result, env1) \<Rightarrow>
                (Inr (foldl (\<lambda>records row. set_property records (e_memoryId row) row)
                        empty_object (results result)),
                 env1)))"

text \<open>
  An element of the search result, \<open>{ ...meta, score: match.score }\<close>: the fields of the row
  with the score, or the score with no field of a record when \<open>meta\<close> is not a row (the
  spread of a function adds nothing, that of a string its characters under their indices).
\<close>

datatype 's SearchHit = Hit EmailRecord 's | Bare 's

definition merge_match :: "JsObject \<Rightarrow> string option \<Rightarrow> 's VectorMatch \<Rightarrow> 's SearchHit option" where
  "merge_match metadataMap company' m =
     (case get_property metadataMap (match_id m) of
        Undefined \<Rightarrow> None
      | Row row \<Rightarrow>
          (if truthy company' \<and> e_company row \<noteq> company' then None else Some (Hit row (score m)))
      | Inherited \<Rightarrow> (if truthy company' then None else Some (Bare (score m))))"

definition searchEmailMemories ::
  "(string \<Rightarrow> string \<Rightarrow> Env \<Rightarrow> error + 's VectorMatch list) \<Rightarrow>
   string \<Rightarrow> string \<Rightarrow> Env \<Rightarrow> string option \<Rightarrow> (error + 's SearchHit list) \<times> Env"
where
  "searchEmailMemories searchMemories query userId env company' =
     (case searchMemories query userId env of
        Inl e \<Rightarrow> (Inl e, env)
      | Inr vectorResults \<Rightarrow>
          (let ids = map match_id vectorResults
           in case getEmailsMetadata ids userId env of
                (Inl e, env1) \<Rightarrow> (Inl e, env1)
              | (Inr metadataMap, env1) \<Rightarrow>
                  (Inr (List.map_filter (merge_match metadataMap company') vectorResults), env1)))"

section \<open>index.ts\<close>

text \<open>
  The handlers of the routes. The middleware registered before them runs
  \<open>initializeDatabase\<close> once per process, ahead of the first request whatever its route;
  it creates the tables when they are absent and is not a step of any operation below.

  A response \<open>c.json(obj, status)\<close>: the status (200 when none is given) and the envelope,
  \<open>{ success: true, ... }\<close> with its payload or \<open>{ success: false, error }\<close>.
\<close>

datatype 'a reply = Success 'a | Failure string

record 'a Response =
  status :: nat
  reply :: "'a reply"

text \<open>
  \<open>await c.req.json()\<close>: it throws when the body is not JSON; otherwise it yields the parsed
  value, \<open>None\<close> for \<open>null\<close>. Of a parsed value the handlers read string fields only: a
  field is \<open>None\<close> when it is absent (in \<open>UpdateBody\<close> also when it is not a string, the
  case that \<open>typeof body.content !== "string"\<close> rejects).
\<close>

datatype 'a parsed = ParseFailure error | Parsed 'a

record UpdateBody =
  content :: "string option"

record EmailJson =
  j_subject :: "string option"
  j_body :: "string option"
  j_sender :: "string option"
  j_recipients :: "string list option"
  j_date :: "string option"
  j_company :: "string option"
  j_messageId :: "string option"
  j_inReplyTo :: "string option"

text \<open>
  The cast of \<open>c.req.json<EmailData>()\<close>: the payload at its declared type. The handler
  reads it so only after it has found the three required fields truthy.
\<close>

definition as_EmailData :: "EmailJson \<Rightarrow> EmailData" where
  "as_EmailData j =
     \<lparr>subject = nullish (j_subject j) [], body = nullish (j_body j) [],
      sender = nullish (j_sender j) [], recipients = j_recipients j, date = j_date j,
      company = j_company j, messageId = j_messageId j, inReplyTo = j_inReplyTo j\<rparr>"

text \<open>\<open>app.delete("/:userId/memories/:memoryId", ...)\<close>\<close>

definition delete_memory_route :: "string \<Rightarrow> string \<Rightarrow> Env \<Rightarrow> unit Response \<times> Env" where
  "delete_memory_route userId memoryId env =
     (case deleteMemoryFromD1 memoryId userId env of
        (Inl e, env1) \<Rightarrow>
          (\<lparr>status = 500, reply = Failure ''Failed to delete memory''\<rparr>,
           console_error (''Error deleting memory '' @ memoryId @ '' (D1 primary) for user '' @
                          userId @ '':'') e env1)
      | (Inr _, env1) \<Rightarrow>
          (let env2 = console_log (''Deleted memory '' @ memoryId @ '' for user '' @ userId @
                                   '' from D1.'') env1
           in case deleteVectorById memoryId userId env2 of
                (Inl vectorError, env3) \<Rightarrow>
                  (\<lparr>status = 200, reply = Success ()\<rparr>,
                   console_error (''Failed to delete vector '' @ memoryId @ '' for user '' @
                                  userId @ '' from Vectorize:'') vectorError env3)
              | (Inr _, env3) \<Rightarrow>
                  (\<lparr>status = 200, reply = Success ()\<rparr>,
                   console_log (''Attempted to delete vector '' @ memoryId @ '' for user '' @
                                userId @ '' from Vectorize.'') env3)))"

text \<open>\<open>app.put("/:userId/memories/:memoryId", ...)\<close>\<close>

definition put_memory_route ::
  "string \<Rightarrow> string \<Rightarrow> UpdateBody option parsed \<Rightarrow> Env \<Rightarrow> unit Response \<times> Env"
where
  "put_memory_route userId memoryId req env =
     (case req of
        ParseFailure e \<Rightarrow>
          (\<lparr>status = 400, reply = Failure ''Failed to parse request body''\<rparr>,
           console_error ''Failed to parse request body:'' e env)
      | Parsed body' \<Rightarrow>
          (case (case body' of None \<Rightarrow> None | Some b \<Rightarrow> content b) of
             None \<Rightarrow>
               (\<lparr>status = 400, reply = Failure ''Invalid or missing content in request body''\<rparr>, env)
           | Some c \<Rightarrow>
               (if trim c = []
                then (\<lparr>status = 400,
                       reply = Failure ''Invalid or missing content in request body''\<rparr>, env)
                else
                  (let updatedContent = trim c
                   in case updateMemoryInD1 memoryId userId updatedContent env of
                        (Inl e, env1) \<Rightarrow>
                          (let env2 = console_error (''Error updating memory '' @ memoryId @
                                        '' for user '' @ userId @ '':'') e env1;
                               errorMessage = (if message e \<noteq> [] then message e
                                               else ''Failed to update memory'')
                           in if includes_str errorMessage ''not found''
                              then (\<lparr>status = 404, reply = Failure errorMessage\<rparr>, env2)
                              else (\<lparr>status = 500, reply = Failure errorMessage\<rparr>, env2))
                      | (Inr _, env1) \<Rightarrow>
                          (let env2 = console_log (''Updated memory '' @ memoryId @
                                        '' for user '' @ userId @ '' in D1.'') env1
                           in case updateMemoryVector memoryId updatedContent userId env2 of
                                (Inl vectorError, env3) \<Rightarrow>
                                  (\<lparr>status = 200, reply = Success ()\<rparr>,
                                   console_error (''Failed to update vector '' @ memoryId @
                                     '' for user '' @ userId @ '' in Vectorize:'') vectorError env3)
                              | (Inr _, env3) \<Rightarrow>
                                  (\<lparr>status = 200, reply = Success ()\<rparr>,
                                   console_log (''Updated vector '' @ memoryId @ '' for user '' @
                                     userId @ '' in Vectorize.'') env3))))))"

text \<open>\<open>app.post("/:userId/emails", ...)\<close>; reading a field of \<open>null\<close> throws inside the \<open>try\<close>.\<close>

definition post_emails_route ::
  "string \<Rightarrow> EmailJson option parsed \<Rightarrow> Env \<Rightarrow> string \<Rightarrow> string Response \<times> Env"
where
  "post_emails_route userId req env uuid =
     (case req of
        ParseFailure e \<Rightarrow> (\<lparr>status = 400, reply = Failure ''Invalid JSON body''\<rparr>, env)
      | Parsed None \<Rightarrow> (\<lparr>status = 400, reply = Failure ''Invalid JSON body''\<rparr>, env)
      | Parsed (Some email) \<Rightarrow>
          (if \<not> truthy (j_subject email) \<or> \<not> truthy (j_body email) \<or> \<not> truthy (j_sender email)
           then (\<lparr>status = 400, reply = Failure ''Missing required email fields''\<rparr>, env)
           else
             (case storeEmailMemory (as_EmailData email) userId env uuid of
                (Inl err, env1) \<Rightarrow>
                  (\<lparr>status = 500, reply = Failure ''Failed to store email''\<rparr>,
                   console_error ''Error storing email'' err env1)
              | (Inr i, env1) \<Rightarrow> (\<lparr>status = 200, reply = Success i\<rparr>, env1))))"

section \<open>Notions used in the statements\<close>

text \<open>The next external call goes through: it is not scripted to fail.\<close>

definition goes_through :: "Env \<Rightarrow> bool" where
  "goes_through env = (case outcomes env of [] \<Rightarrow> True | out # _ \<Rightarrow> out = None)"

text \<open>The row of \<open>memories\<close> addressed by an id and an owner.\<close>

definition targets :: "string \<Rightarrow> string \<Rightarrow> MemoryRow \<Rightarrow> bool" where
  "targets memoryId userId r = (m_id r = memoryId \<and> m_userId r = userId)"

text \<open>The values that \<open>storeEmailMemory\<close> computes from an email before it writes.\<close>

definition email_company :: "EmailData \<Rightarrow> string option" where
  "email_company email =
     (if truthy (company email) then company email else extractCompanyFromEmail (sender email))"

definition email_recipients :: "EmailData \<Rightarrow> string" where
  "email_recipients email = (case recipients email of None \<Rightarrow> [] | Some rs \<Rightarrow> join '','' rs)"

definition email_text :: "EmailData \<Rightarrow> string" where
  "email_text email =
     subject email @ [CHR 0x0A] @ body email @ [CHR 0x0A] @ ''From: '' @ sender email @
     [CHR 0x0A] @ ''To: '' @ email_recipients email"

definition email_metadata :: "EmailData \<Rightarrow> (string \<times> string) list" where
  "email_metadata email =
     [(''subject'', subject email), (''sender'', sender email),
      (''recipients'', email_recipients email), (''date'', nullish (date email) []),
      (''company'', nullish (email_company email) []),
      (''messageId'', nullish (messageId email) []),
      (''inReplyTo'', nullish (inReplyTo email) [])]"

definition insert_memories_call :: "string \<Rightarrow> string \<Rightarrow> string \<Rightarrow> call" where
  "insert_memories_call memoryId userId c =
     D1Query ''INSERT INTO memories (id, userId, content) VALUES (?, ?, ?)'' [memoryId, userId, c]"

text \<open>A statement on the table \<open>emails\<close> that writes.\<close>

definition writes_emails :: "call \<Rightarrow> bool" where
  "writes_emails c =
     (case c of
        D1Query sql _ \<Rightarrow> prefix ''INSERT INTO emails'' sql \<or> prefix ''DELETE FROM emails'' sql
      | _ \<Rightarrow> False)"

text \<open>The company and the score that a search hit carries.\<close>

definition hit_company :: "'s SearchHit \<Rightarrow> string option" where
  "hit_company h = (case h of Hit row _ \<Rightarrow> e_company row | Bare _ \<Rightarrow> None)"

definition hit_score :: "'s SearchHit \<Rightarrow> 's" where
  "hit_score h = (case h of Hit _ s \<Rightarrow> s | Bare s \<Rightarrow> s)"

text \<open>The message of the error that \<open>updateMemoryInD1\<close> throws when no row changed.\<close>

definition not_found_message :: "string \<Rightarrow> string \<Rightarrow> string" where
  "not_found_message memoryId userId =
     ''Memory with ID '' @ memoryId @ '' not found for user '' @ userId @
     '' or content unchanged.''"

text \<open>
  The lines that the handlers log once the Content Store step is done, before they turn to the
  Vector Index.
\<close>

definition deleted_log :: "string \<Rightarrow> string \<Rightarrow> string" where
  "deleted_log memoryId userId =
     ''Deleted memory '' @ memoryId @ '' for user '' @ userId @ '' from D1.''"

definition updated_log :: "string \<Rightarrow> string \<Rightarrow> string" where
  "updated_log memoryId userId =
     ''Updated memory '' @ memoryId @ '' for user '' @ userId @ '' in D1.''"

text \<open>
  The match that \<open>regex_match\<close> looks for, stated on the string: \<open>g\<close> is captured at an \<open>@\<close>
  of \<open>s\<close>, and at no \<open>@\<close> before it does the attempt succeed.
\<close>
definition leftmost :: "string \<Rightarrow> string \<Rightarrow> bool" where
  "leftmost s g \<longleftrightarrow>
     (\<exists>p r. s = p @ CHR ''@'' # r \<and> tail_match r = Some g \<and>
            (\<forall>p1 p2. p = p1 @ CHR ''@'' # p2 \<longrightarrow> tail_match (p2 @ CHR ''@'' # r) = None))"


subsection \<open>A small world for the concrete instances\<close>

definition acme_row :: EmailRecord where
  "acme_row =
     \<lparr>e_id = ''m1'', e_userId = ''u1'', e_memoryId = ''m1'', e_sender = Some ''a@acme.com'',
      e_recipients = Some ''b@sub.io'', e_subject = Some ''Offer'', e_date = Some [],
      e_company = Some ''acme'', e_messageId = Some [], e_inReplyTo = Some [],
      e_created_at = ''t0''\<rparr>"

definition sub_row :: EmailRecord where
  "sub_row =
     \<lparr>e_id = ''m2'', e_userId = ''u1'', e_memoryId = ''m2'', e_sender = Some ''c@sub.io'',
      e_recipients = Some [], e_subject = Some ''Invoice'', e_date = Some [],
      e_company = Some ''sub'', e_messageId = Some [], e_inReplyTo = Some [],
      e_created_at = ''t0''\<rparr>"

definition world :: Env where
  "world =
     \<lparr>memories =
        [\<lparr>m_id = ''m1'', m_userId = ''u1'', m_content = ''Offer'', m_created_at = ''t0''\<rparr>,
         \<lparr>m_id = ''m2'', m_userId = ''u1'', m_content = ''Invoice'', m_created_at = ''t0''\<rparr>],
      emails = [acme_row, sub_row],
      now = ''t1'',
      vectors =
        [\<lparr>v_namespace = ''u1'', v_id = ''m1'', v_text = ''Offer'', v_metadata = []\<rparr>,
         \<lparr>v_namespace = ''u1'', v_id = ''m2'', v_text = ''Invoice'', v_metadata = []\<rparr>],
      outcomes = [], calls = [], console = []\<rparr>"

text \<open>
  A ranking as the Vectorize index may return it: the two memories and, between them, an entry
  whose memory has been deleted.
\<close>

definition ranking :: "string \<Rightarrow> string \<Rightarrow> Env \<Rightarrow> error + nat VectorMatch list" where
  "ranking q u env =
     Inr [\<lparr>match_id = ''m2'', score = 9\<rparr>, \<lparr>match_id = ''gone'', score = 8\<rparr>,
          \<lparr>match_id = ''m1'', score = 7\<rparr>]"

definition memo :: EmailData where
  "memo =
     \<lparr>subject = ''Hello'', body = ''See you'', sender = ''not-an-email'', recipients = None,
      date = None, company = None, messageId = None, inReplyTo = None\<rparr>"

text \<open>
  A ranking with one entry that has no row in \<open>emails\<close>, under an id that is also the name of
  a member of \<open>Object.prototype\<close>.
\<close>

definition stray_ranking :: "string \<Rightarrow> string \<Rightarrow> Env \<Rightarrow> error + nat VectorMatch list" where
  "stray_ranking q u env = Inr [\<lparr>match_id = ''constructor'', score = 9\<rparr>]"

section \<open>Facts about the operations\<close>

lemmas run_defs =
  storeEmailMemory_def storeMemoryInD1_def deleteMemoryFromD1_def updateMemoryInD1_def
  storeMemory_def updateMemoryVector_def deleteVectorById_def generateEmbeddings_def
  vectorize_upsert_def vectorize_delete_def d1_def external_def
  sql_insert_memories_def sql_delete_memories_def sql_update_memories_def sql_insert_emails_def
  sql_select_emails_in_def console_log_def console_error_def
  extractCompanyFromEmail_def tail_match_def first_label_def
  toLowerCase_def isUpper_def truthy_def nullish_def Let_def

lemma external_eq:
  "external c env =
     (case outcomes env of [] \<Rightarrow> None | out # _ \<Rightarrow> out,
      env\<lparr>calls := calls env @ [c], outcomes := tl (outcomes env)\<rparr>)"
  by (simp add: external_def split: list.splits)

lemma storeEmailMemory_unfold:
  "storeEmailMemory email userId env uuid =
     (case storeMemoryInD1 (email_text email) userId env uuid of
        (Inl e, env1) \<Rightarrow> (Inl e, env1)
      | (Inr _, env1) \<Rightarrow>
          (case storeMemory (email_text email) userId env1 (email_metadata email) uuid of
             (Inl e, env2) \<Rightarrow> (Inl e, env2)
           | (Inr _, env2) \<Rightarrow>
               (case d1 ''INSERT INTO emails (id, userId, memoryId, sender, recipients, subject, date, company, messageId, inReplyTo) VALUES (?, ?, ?, ?, ?, ?, ?, ?, ?, ?)''
                       [uuid, userId, uuid, sender email, email_recipients email, subject email,
                        nullish (date email) [], nullish (email_company email) [],
                        nullish (messageId email) [], nullish (inReplyTo email) []]
                       (sql_insert_emails
                          \<lparr>e_id = uuid, e_userId = userId, e_memoryId = uuid,
                           e_sender = Some (sender email),
                           e_recipients = Some (email_recipients email),
                           e_subject = Some (subject email),
                           e_date = Some (nullish (date email) []),
                           e_company = Some (nullish (email_company email) []),
                           e_messageId = Some (nullish (messageId email) []),
                           e_inReplyTo = Some (nullish (inReplyTo email) []),
                           e_created_at = now env2\<rparr>)
                       env2 of
                  (Inl e, env3) \<Rightarrow> (Inl e, env3)
                | (Inr _, env3) \<Rightarrow> (Inr uuid, env3))))"
  unfolding storeEmailMemory_def email_text_def email_metadata_def email_company_def
    email_recipients_def Let_def
  by (rule refl)

lemma storeMemoryInD1_Inl:
  assumes "storeMemoryInD1 c userId env memoryId = (Inl e, env1)"
  shows "(\<exists>msg. e = D1Error msg) \<and> memories env1 = memories env \<and> emails env1 = emails env \<and>
         vectors env1 = vectors env \<and>
         calls env1 = calls env @ [insert_memories_call memoryId userId c]"
  using assms
  by (auto simp: storeMemoryInD1_def d1_def external_eq sql_insert_memories_def console_error_def
        console_log_def insert_memories_call_def split: option.splits list.splits if_splits)

lemma storeMemoryInD1_Inr:
  assumes "storeMemoryInD1 c userId env memoryId = (Inr i, env1)"
  shows "i = memoryId \<and>
         memories env1 = memories env @
           [\<lparr>m_id = memoryId, m_userId = userId, m_content = c, m_created_at = now env\<rparr>] \<and>
         emails env1 = emails env \<and> vectors env1 = vectors env \<and>
         calls env1 = calls env @ [insert_memories_call memoryId userId c]"
  using assms
  by (auto simp: storeMemoryInD1_def d1_def external_eq sql_insert_memories_def console_error_def
        console_log_def insert_memories_call_def split: option.splits list.splits if_splits)

lemma storeMemory_Inl:
  assumes "storeMemory t userId env md memoryId = (Inl e, env1)"
  shows "((\<exists>msg. e = AiError msg) \<or> (\<exists>msg. e = VectorizeError msg)) \<and>
         memories env1 = memories env \<and> emails env1 = emails env \<and> vectors env1 = vectors env \<and>
         (calls env1 = calls env @ [AiRun t] \<or>
          calls env1 = calls env @ [AiRun t, VectorizeUpsert userId memoryId])"
  using assms
  by (auto simp: storeMemory_def generateEmbeddings_def vectorize_upsert_def external_eq
        split: option.splits list.splits if_splits)

lemma post_emails_route_failure:
  assumes "truthy (j_subject j)" "truthy (j_body j)" "truthy (j_sender j)"
    and "storeEmailMemory (as_EmailData j) userId env uuid = (Inl e, env1)"
  shows "post_emails_route userId (Parsed (Some j)) env uuid =
           (\<lparr>status = 500, reply = Failure ''Failed to store email''\<rparr>,
            console_error ''Error storing email'' e env1)"
  using assms by (simp add: post_emails_route_def)

lemma merge_match_empty_filter: "merge_match obj (Some []) = merge_match obj None"
  by (rule ext) (simp add: merge_match_def truthy_def split: property.splits)

lemma map_filter_as_filter:
  assumes "\<And>x. x \<in> set xs \<Longrightarrow>
             g x = (case f x of None \<Rightarrow> None | Some y \<Rightarrow> if P y then Some y else None)"
  shows "List.map_filter g xs = filter P (List.map_filter f xs)"
  using assms by (induction xs) (auto simp: List.map_filter_simps split: option.splits)

lemma merge_match_filtered:
  "c \<noteq> [] \<Longrightarrow>
   merge_match obj (Some c) m =
     (case merge_match obj None m of
        None \<Rightarrow> None
      | Some h \<Rightarrow> if hit_company h = Some c then Some h else None)"
  by (auto simp: merge_match_def truthy_def hit_company_def split: property.splits)

lemma merge_match_score: "merge_match obj co m = Some h \<Longrightarrow> hit_score h = score m"
  by (auto simp: merge_match_def hit_score_def split: property.splits if_splits)

lemma map_filter_keeps_order:
  "(\<And>m h. f m = Some h \<Longrightarrow> k h = j m) \<Longrightarrow> subseq (map k (List.map_filter f ms)) (map j ms)"
  by (induction ms) (auto simp: List.map_filter_simps split: option.splits)

lemma external_goes_through:
  "goes_through env \<Longrightarrow>
   external c env = (None, env\<lparr>calls := calls env @ [c], outcomes := tl (outcomes env)\<rparr>)"
  by (simp add: external_def goes_through_def split: list.splits)

lemma no_target_filter:
  assumes "\<forall>r \<in> set rows. \<not> targets memoryId userId r"
  shows "filter (\<lambda>r. m_id r = memoryId \<and> m_userId r = userId) rows = []"
    and "filter (\<lambda>r. \<not> (m_id r = memoryId \<and> m_userId r = userId)) rows = rows"
    and "map (\<lambda>r. if m_id r = memoryId \<and> m_userId r = userId then r\<lparr>m_content := c\<rparr> else r) rows = rows"
proof -
  from assms have n: "\<And>r. r \<in> set rows \<Longrightarrow> \<not> (m_id r = memoryId \<and> m_userId r = userId)"
    by (simp add: targets_def)
  show "filter (\<lambda>r. m_id r = memoryId \<and> m_userId r = userId) rows = []"
    using n by (simp add: filter_empty_conv)
  show "filter (\<lambda>r. \<not> (m_id r = memoryId \<and> m_userId r = userId)) rows = rows"
    using n by (simp add: filter_id_conv)
  show "map (\<lambda>r. if m_id r = memoryId \<and> m_userId r = userId then r\<lparr>m_content := c\<rparr> else r) rows = rows"
  proof (rule map_idI)
    fix r assume "r \<in> set rows"
    then have "\<not> (m_id r = memoryId \<and> m_userId r = userId)" by (rule n)
    then show "(if m_id r = memoryId \<and> m_userId r = userId then r\<lparr>m_content := c\<rparr> else r) = r"
      by (simp only: if_False)
  qed
qed


lemma d1_update_missing:
  assumes "goes_through env"
    and "\<forall>r \<in> set (memories env). \<not> targets memoryId userId r"
  shows "d1 sql ps (sql_update_memories newContent memoryId userId) env =
     (Inr \<lparr>results = [], meta = Some \<lparr>changes = 0\<rparr>\<rparr>,
      env\<lparr>calls := calls env @ [D1Query sql ps], outcomes := tl (outcomes env)\<rparr>)"
proof -
  let ?env1 = "env\<lparr>calls := calls env @ [D1Query sql ps], outcomes := tl (outcomes env)\<rparr>"
  have "\<forall>r \<in> set (memories ?env1). \<not> targets memoryId userId r"
    using assms(2) by simp
  note f = no_target_filter[OF this]
  have "sql_update_memories newContent memoryId userId ?env1 =
      Inr (\<lparr>results = [], meta = Some \<lparr>changes = 0\<rparr>\<rparr>, ?env1)"
    unfolding sql_update_memories_def Let_def f by simp
  then show ?thesis
    by (simp add: d1_def external_goes_through[OF assms(1)])
qed

lemma updateMemoryInD1_missing:
  assumes "goes_through env"
    and "\<forall>r \<in> set (memories env). \<not> targets memoryId userId r"
  shows "updateMemoryInD1 memoryId userId newContent env =
     (Inl (Error (not_found_message memoryId userId)),
      env\<lparr>calls := calls env @
             [D1Query ''UPDATE memories SET content = ? WHERE id = ? AND userId = ?''
                [newContent, memoryId, userId]],
          outcomes := tl (outcomes env),
          console := console env @
             [ConsoleError ''Error updating memory in D1:''
                (Error (not_found_message memoryId userId))]\<rparr>)"
  apply (simp only: updateMemoryInD1_def d1_update_missing[OF assms])
  apply (simp add: console_error_def Let_def not_found_message_def)
  done

lemma includes_str_prefix: "prefix sub s \<Longrightarrow> includes_str s sub"
  by (cases s) simp_all

lemma includes_str_append: "includes_str (a @ sub @ b) sub"
proof (induction a)
  case Nil
  show ?case by (simp add: includes_str_prefix)
next
  case (Cons c a)
  then show ?case by simp
qed

lemma includes_not_found: "includes_str (not_found_message i u) ''not found''"
proof -
  have "not_found_message i u =
        (''Memory with ID '' @ i @ '' '') @ ''not found'' @
        ('' for user '' @ u @ '' or content unchanged.'')"
    by (simp add: not_found_message_def)
  then show ?thesis
    by (simp only: includes_str_append)
qed

lemma not_found_message_nonempty: "not_found_message i u \<noteq> []"
  by (simp add: not_found_message_def)

lemma put_memory_route_missing:
  assumes "content b = Some c" and "trim c \<noteq> []"
    and "goes_through env"
    and "\<forall>r \<in> set (memories env). \<not> targets memoryId userId r"
  shows "put_memory_route userId memoryId (Parsed (Some b)) env =
     (\<lparr>status = 404, reply = Failure (not_found_message memoryId userId)\<rparr>,
      env\<lparr>calls := calls env @
             [D1Query ''UPDATE memories SET content = ? WHERE id = ? AND userId = ?''
                [trim c, memoryId, userId]],
          outcomes := tl (outcomes env),
          console := console env @
             [ConsoleError ''Error updating memory in D1:''
                (Error (not_found_message memoryId userId)),
              ConsoleError (''Error updating memory '' @ memoryId @ '' for user '' @ userId @ '':'')
                (Error (not_found_message memoryId userId))]\<rparr>)"
  using assms(1,2)
  by (simp add: put_memory_route_def updateMemoryInD1_missing[OF assms(3,4)] console_error_def
      Let_def not_found_message_nonempty includes_not_found)

lemmas search_defs =
  searchEmailMemories_def getEmailsMetadata_def merge_match_def get_property_def set_property_def
  empty_object_def object_prototype_keys_def column_def List.map_filter_simps

lemma deleteMemoryFromD1_Inr:
  assumes "deleteMemoryFromD1 memoryId userId env = (Inr u, env1)"
  shows "memories env1 = filter (\<lambda>r. \<not> targets memoryId userId r) (memories env) \<and>
         emails env1 = emails env \<and> vectors env1 = vectors env \<and> goes_through env"
  using assms
  by (auto simp: deleteMemoryFromD1_def d1_def external_eq sql_delete_memories_def Let_def
        console_log_def console_error_def targets_def goes_through_def
        split: option.splits list.splits)

lemma deleteMemoryFromD1_Inl:
  assumes "deleteMemoryFromD1 memoryId userId env = (Inl e, env1)"
  shows "memories env1 = memories env \<and> emails env1 = emails env \<and> vectors env1 = vectors env \<and>
         \<not> goes_through env"
  using assms
  by (auto simp: deleteMemoryFromD1_def d1_def external_eq sql_delete_memories_def Let_def
        console_log_def console_error_def targets_def goes_through_def
        split: option.splits list.splits)

lemma deleteVectorById_frame:
  assumes "deleteVectorById memoryId userId env = (r, env1)"
  shows "memories env1 = memories env \<and> emails env1 = emails env \<and>
         ((\<exists>e. r = Inl e) \<longrightarrow> vectors env1 = vectors env)"
  using assms
  by (auto simp: deleteVectorById_def vectorize_delete_def external_eq
        split: option.splits list.splits)

lemma updateMemoryInD1_Inr:
  assumes "updateMemoryInD1 memoryId userId c env = (Inr u, env1)"
  shows "memories env1 =
           map (\<lambda>r. if targets memoryId userId r then r\<lparr>m_content := c\<rparr> else r) (memories env) \<and>
         emails env1 = emails env \<and> vectors env1 = vectors env"
  using assms
  by (auto simp: updateMemoryInD1_def d1_def external_eq sql_update_memories_def Let_def
        console_log_def console_error_def targets_def
        split: option.splits list.splits if_splits)

lemma updateMemoryVector_Inl:
  assumes "updateMemoryVector memoryId c userId env = (Inl e, env1)"
  shows "memories env1 = memories env \<and> emails env1 = emails env \<and> vectors env1 = vectors env"
  using assms
  by (auto simp: updateMemoryVector_def generateEmbeddings_def vectorize_upsert_def external_eq
        split: option.splits list.splits)

lemma tail_match_Some:
  "tail_match r = Some g \<longleftrightarrow> g \<noteq> [] \<and> CHR ''>'' \<notin> set g \<and> (r = g \<or> r = g @ ''>'')"
proof
  assume a: "tail_match r = Some g"
  let ?P = "\<lambda>c. c \<noteq> CHR ''>''"
  define d where "d = dropWhile ?P r"
  from a have g: "takeWhile ?P r = g" and ne: "g \<noteq> []" and rest: "d = [] \<or> d = ''>''"
    by (auto simp: tail_match_def Let_def d_def split: if_splits)
  have "takeWhile ?P r @ dropWhile ?P r = r"
    by (rule takeWhile_dropWhile_id)
  then have r: "r = g @ d"
    by (simp only: g d_def)
  have "\<forall>x \<in> set (takeWhile ?P r). ?P x"
    by (metis set_takeWhileD)
  then have "CHR ''>'' \<notin> set g"
    unfolding g by blast
  with ne rest r show "g \<noteq> [] \<and> CHR ''>'' \<notin> set g \<and> (r = g \<or> r = g @ ''>'')"
    by fastforce
next
  assume b: "g \<noteq> [] \<and> CHR ''>'' \<notin> set g \<and> (r = g \<or> r = g @ ''>'')"
  let ?P = "\<lambda>c. c \<noteq> CHR ''>''"
  from b have all: "\<forall>x \<in> set g. ?P x" by blast
  have t1: "takeWhile ?P g = g" and d1: "dropWhile ?P g = []"
    using all by simp_all
  have t2: "takeWhile ?P (g @ ''>'') = g" and d2: "dropWhile ?P (g @ ''>'') = ''>''"
    using all by (simp_all add: takeWhile_append2 dropWhile_append2)
  from b consider "r = g" | "r = g @ ''>''" by blast
  then show "tail_match r = Some g"
  proof cases
    case 1
    show ?thesis unfolding 1 tail_match_def Let_def t1 d1 using b by simp
  next
    case 2
    show ?thesis unfolding 2 tail_match_def Let_def t2 d2 using b by simp
  qed
qed

lemma tail_match_blocked:
  assumes "tail_match r = Some g"
  shows "tail_match (p2 @ CHR ''@'' # r) = None \<longleftrightarrow> CHR ''>'' \<in> set p2"
proof
  assume n: "tail_match (p2 @ CHR ''@'' # r) = None"
  show "CHR ''>'' \<in> set p2"
  proof (rule ccontr)
    assume f: "CHR ''>'' \<notin> set p2"
    from assms have g: "g \<noteq> []" "CHR ''>'' \<notin> set g" "r = g \<or> r = g @ ''>''"
      by (simp_all add: tail_match_Some)
    have "p2 @ CHR ''@'' # g \<noteq> [] \<and> CHR ''>'' \<notin> set (p2 @ CHR ''@'' # g) \<and>
        (p2 @ CHR ''@'' # r = p2 @ CHR ''@'' # g \<or> p2 @ CHR ''@'' # r = (p2 @ CHR ''@'' # g) @ ''>'')"
      using f g by auto
    then have "tail_match (p2 @ CHR ''@'' # r) = Some (p2 @ CHR ''@'' # g)"
      by (rule tail_match_Some[THEN iffD2])
    with n show False by simp
  qed
next
  assume i: "CHR ''>'' \<in> set p2"
  show "tail_match (p2 @ CHR ''@'' # r) = None"
  proof (cases "tail_match (p2 @ CHR ''@'' # r)")
    case None
    then show ?thesis .
  next
    case (Some g')
    then have g': "CHR ''>'' \<notin> set g'"
      and e: "p2 @ CHR ''@'' # r = g' \<or> p2 @ CHR ''@'' # r = g' @ ''>''"
      by (simp_all add: tail_match_Some)
    from e show ?thesis
    proof
      assume "p2 @ CHR ''@'' # r = g'"
      then have "set p2 \<subseteq> set g'" by auto
      with i g' show ?thesis by blast
    next
      assume "p2 @ CHR ''@'' # r = g' @ ''>''"
      then obtain us where "(p2 = g' @ us \<and> us @ CHR ''@'' # r = ''>'') \<or>
          (p2 @ us = g' \<and> CHR ''@'' # r = us @ ''>'')"
        by (auto simp: append_eq_append_conv2)
      then show ?thesis
      proof
        assume "p2 = g' @ us \<and> us @ CHR ''@'' # r = ''>''"
        then have "us @ CHR ''@'' # r = [CHR ''>'']" by simp
        then have False by (cases us) simp_all
        then show ?thesis ..
      next
        assume "p2 @ us = g' \<and> CHR ''@'' # r = us @ ''>''"
        then have "set p2 \<subseteq> set g'" by auto
        with i g' show ?thesis by blast
      qed
    qed
  qed
qed

lemma leftmost_here:
  assumes "tail_match cs = Some g0"
  shows "leftmost (CHR ''@'' # cs) g \<longleftrightarrow> g = g0"
proof
  assume "leftmost (CHR ''@'' # cs) g"
  then obtain p r where s: "CHR ''@'' # cs = p @ CHR ''@'' # r" and t: "tail_match r = Some g"
    and l: "\<forall>p1 p2. p = p1 @ CHR ''@'' # p2 \<longrightarrow> tail_match (p2 @ CHR ''@'' # r) = None"
    unfolding leftmost_def by blast
  show "g = g0"
  proof (cases p)
    case Nil
    with s t assms show ?thesis by simp
  next
    case (Cons x p')
    with s have "x = CHR ''@''" and cs: "cs = p' @ CHR ''@'' # r" by simp_all
    then have "p = [] @ CHR ''@'' # p'" using Cons by simp
    with l have "tail_match (p' @ CHR ''@'' # r) = None" by blast
    with cs assms show ?thesis by simp
  qed
next
  assume "g = g0"
  then have "CHR ''@'' # cs = [] @ CHR ''@'' # cs \<and> tail_match cs = Some g \<and>
      (\<forall>p1 p2. [] = p1 @ CHR ''@'' # p2 \<longrightarrow> tail_match (p2 @ CHR ''@'' # cs) = None)"
    using assms by simp
  then show "leftmost (CHR ''@'' # cs) g"
    unfolding leftmost_def by blast
qed

lemma leftmost_later:
  assumes "c = CHR ''@'' \<longrightarrow> tail_match cs = None"
  shows "leftmost (c # cs) g \<longleftrightarrow> leftmost cs g"
proof
  assume "leftmost (c # cs) g"
  then obtain p r where s: "c # cs = p @ CHR ''@'' # r" and t: "tail_match r = Some g"
    and l: "\<forall>p1 p2. p = p1 @ CHR ''@'' # p2 \<longrightarrow> tail_match (p2 @ CHR ''@'' # r) = None"
    unfolding leftmost_def by blast
  show "leftmost cs g"
  proof (cases p)
    case Nil
    with s have "c = CHR ''@''" "cs = r" by simp_all
    with assms t show ?thesis by simp
  next
    case (Cons x p')
    with s have cs: "cs = p' @ CHR ''@'' # r" by simp
    have "\<forall>p1 p2. p' = p1 @ CHR ''@'' # p2 \<longrightarrow> tail_match (p2 @ CHR ''@'' # r) = None"
    proof (intro allI impI)
      fix p1 p2 assume "p' = p1 @ CHR ''@'' # p2"
      then have "p = (x # p1) @ CHR ''@'' # p2" using Cons by simp
      with l show "tail_match (p2 @ CHR ''@'' # r) = None" by blast
    qed
    with cs t show ?thesis unfolding leftmost_def by blast
  qed
next
  assume "leftmost cs g"
  then obtain p r where s: "cs = p @ CHR ''@'' # r" and t: "tail_match r = Some g"
    and l: "\<forall>p1 p2. p = p1 @ CHR ''@'' # p2 \<longrightarrow> tail_match (p2 @ CHR ''@'' # r) = None"
    unfolding leftmost_def by blast
  have s': "c # cs = (c # p) @ CHR ''@'' # r" using s by simp
  have "\<forall>p1 p2. c # p = p1 @ CHR ''@'' # p2 \<longrightarrow> tail_match (p2 @ CHR ''@'' # r) = None"
  proof (intro allI impI)
    fix p1 p2 assume e: "c # p = p1 @ CHR ''@'' # p2"
    show "tail_match (p2 @ CHR ''@'' # r) = None"
    proof (cases p1)
      case Nil
      with e have "c = CHR ''@''" "p = p2" by simp_all
      with assms s show ?thesis by simp
    next
      case (Cons y p1')
      with e have "p = p1' @ CHR ''@'' # p2" by simp
      with l show ?thesis by blast
    qed
  qed
  with s' t show "leftmost (c # cs) g" unfolding leftmost_def by blast
qed

lemma regex_match_leftmost: "regex_match s = Some g \<longleftrightarrow> leftmost s g"
proof (induction s)
  case Nil
  show ?case by (simp add: leftmost_def)
next
  case (Cons c cs)
  show ?case
  proof (cases "c = CHR ''@'' \<and> tail_match cs \<noteq> None")
    case True
    then obtain g0 where g0: "tail_match cs = Some g0" and c: "c = CHR ''@''" by auto
    have "regex_match (c # cs) = Some g0" by (simp add: c g0)
    then show ?thesis using leftmost_here[OF g0, of g] by (auto simp: c)
  next
    case False
    then have n: "c = CHR ''@'' \<longrightarrow> tail_match cs = None" by blast
    then have "regex_match (c # cs) = regex_match cs" by simp
    then show ?thesis using Cons.IH leftmost_later[OF n, of g] by simp
  qed
qed

lemma regex_match_Some:
  "regex_match s = Some g \<longleftrightarrow>
     (\<exists>p b. s = p @ CHR ''@'' # g @ b \<and> g \<noteq> [] \<and> CHR ''>'' \<notin> set g \<and> (b = [] \<or> b = ''>'') \<and>
            (\<forall>p1 p2. p = p1 @ CHR ''@'' # p2 \<longrightarrow> CHR ''>'' \<in> set p2))"
proof
  assume "regex_match s = Some g"
  then obtain p r where s: "s = p @ CHR ''@'' # r" and t: "tail_match r = Some g"
    and l: "\<forall>p1 p2. p = p1 @ CHR ''@'' # p2 \<longrightarrow> tail_match (p2 @ CHR ''@'' # r) = None"
    unfolding regex_match_leftmost leftmost_def by blast
  from t have g: "g \<noteq> []" "CHR ''>'' \<notin> set g" and r: "r = g \<or> r = g @ ''>''"
    by (simp_all add: tail_match_Some)
  from r obtain b where b: "r = g @ b" "b = [] \<or> b = ''>''" by auto
  have "\<forall>p1 p2. p = p1 @ CHR ''@'' # p2 \<longrightarrow> CHR ''>'' \<in> set p2"
    using l tail_match_blocked[OF t] by blast
  with s g b show "\<exists>p b. s = p @ CHR ''@'' # g @ b \<and> g \<noteq> [] \<and> CHR ''>'' \<notin> set g \<and>
      (b = [] \<or> b = ''>'') \<and> (\<forall>p1 p2. p = p1 @ CHR ''@'' # p2 \<longrightarrow> CHR ''>'' \<in> set p2)"
    by blast
next
  assume "\<exists>p b. s = p @ CHR ''@'' # g @ b \<and> g \<noteq> [] \<and> CHR ''>'' \<notin> set g \<and>
      (b = [] \<or> b = ''>'') \<and> (\<forall>p1 p2. p = p1 @ CHR ''@'' # p2 \<longrightarrow> CHR ''>'' \<in> set p2)"
  then obtain p b where s: "s = p @ CHR ''@'' # g @ b" and g: "g \<noteq> []" "CHR ''>'' \<notin> set g"
    and b: "b = [] \<or> b = ''>''"
    and l: "\<forall>p1 p2. p = p1 @ CHR ''@'' # p2 \<longrightarrow> CHR ''>'' \<in> set p2"
    by blast
  have t: "tail_match (g @ b) = Some g"
    using g b by (auto simp: tail_match_Some)
  have "\<forall>p1 p2. p = p1 @ CHR ''@'' # p2 \<longrightarrow> tail_match (p2 @ CHR ''@'' # g @ b) = None"
    using l tail_match_blocked[OF t] by blast
  with s t have "leftmost s g"
    unfolding leftmost_def by blast
  then show "regex_match s = Some g"
    by (simp only: regex_match_leftmost)
qed

lemma regex_match_no_at: "CHR ''@'' \<notin> set s \<Longrightarrow> regex_match s = None"
  by (induction s) auto

lemma split_str_nonempty: "split_str sep s \<noteq> []"
  by (induction s) (auto split: list.splits)

lemma split_str_join: "join [sep] (split_str sep s) = s"
proof (induction s)
  case Nil
  show ?case by simp
next
  case (Cons c cs)
  show ?case
  proof (cases "c = sep")
    case True
    obtain p ps where e: "split_str sep cs = p # ps"
      using split_str_nonempty[of sep cs] by (cases "split_str sep cs") auto
    then show ?thesis using Cons True by simp
  next
    case False
    obtain p ps where e: "split_str sep cs = p # ps"
      using split_str_nonempty[of sep cs] by (cases "split_str sep cs") auto
    then show ?thesis using Cons False by (cases ps) simp_all
  qed
qed

lemma split_str_parts: "p \<in> set (split_str sep s) \<Longrightarrow> sep \<notin> set p"
proof (induction s arbitrary: p)
  case Nil
  then show ?case by simp
next
  case (Cons c cs)
  obtain q qs where e: "split_str sep cs = q # qs"
    using split_str_nonempty[of sep cs] by (cases "split_str sep cs") auto
  show ?case
  proof (cases "c = sep")
    case True
    with Cons show ?thesis by auto
  next
    case False
    with Cons.prems e have "p = c # q \<or> p \<in> set qs" by simp
    then show ?thesis
      using Cons.IH[of q] Cons.IH[of p] e False by auto
  qed
qed

lemma extractCompanyFromEmail_no_at:
  "CHR ''@'' \<notin> set s \<Longrightarrow> extractCompanyFromEmail s = None"
  by (simp add: extractCompanyFromEmail_def regex_match_no_at)

lemma storeEmailMemory_without_company:
  assumes "CHR ''@'' \<notin> set (sender email)" and "\<not> truthy (company email)"
    and "outcomes env = []"
    and "uuid \<notin> set (map m_id (memories env))" and "uuid \<notin> set (map e_id (emails env))"
  shows "fst (storeEmailMemory email userId env uuid) = Inr uuid \<and>
         (\<exists>row. emails (snd (storeEmailMemory email userId env uuid)) = emails env @ [row] \<and>
                e_memoryId row = uuid \<and> e_userId row = userId \<and> e_company row = Some [])"
  using assms
  by (simp add: storeEmailMemory_def storeMemoryInD1_def storeMemory_def generateEmbeddings_def
      vectorize_upsert_def d1_def external_def sql_insert_memories_def sql_insert_emails_def
      console_log_def extractCompanyFromEmail_no_at nullish_def Let_def)

text \<open>
  What the search returns, by the kind of hit: a hit with the fields of a record carries a row
  of \<open>emails\<close> of the owner, found under the id of its match; a hit with the score alone
  comes from a match whose id names a member of \<open>Object.prototype\<close> (no row of the table has
  \<open>__proto__\<close> as memory id when ids come from \<open>uuidv4\<close>).
\<close>

lemma records_invariant:
  "(map_of (own (foldl (\<lambda>records row. set_property records (e_memoryId row) row) obj rows)) k = Some r
      \<longrightarrow> (r \<in> set rows \<and> e_memoryId r = k) \<or> map_of (own obj) k = Some r)
   \<and> (proto (foldl (\<lambda>records row. set_property records (e_memoryId row) row) obj rows) = Some r
      \<longrightarrow> (r \<in> set rows \<and> e_memoryId r = ''__proto__'') \<or> proto obj = Some r)"
proof (induction rows arbitrary: obj)
  case Nil
  show ?case by simp
next
  case (Cons row rows)
  show ?case
    using Cons.IH[of "set_property obj (e_memoryId row) row"]
    by (auto simp: set_property_def split: if_splits)
qed

lemma getEmailsMetadata_Row:
  assumes "getEmailsMetadata ids u env = (Inr obj, env1)"
    and "get_property obj k = Row r"
  shows "r \<in> set (emails env) \<and> e_userId r = u \<and> e_memoryId r = k \<and> e_memoryId r \<in> set ids"
proof -
  let ?rows = "filter (\<lambda>r. e_memoryId r \<in> set ids \<and> e_userId r = u) (emails env)"
  let ?f = "\<lambda>records row. set_property records (e_memoryId row) row"
  from assms(1) have "obj = empty_object \<or> obj = foldl ?f empty_object ?rows"
    by (auto simp: getEmailsMetadata_def d1_def external_eq sql_select_emails_in_def Let_def
        split: if_splits option.splits)
  then have inv: "(map_of (own obj) k = Some r \<longrightarrow> r \<in> set ?rows \<and> e_memoryId r = k)
      \<and> (proto obj = Some r \<longrightarrow> r \<in> set ?rows \<and> e_memoryId r = ''__proto__'')"
    using records_invariant[of empty_object ?rows k r]
    by (auto simp: empty_object_def)
  from assms(2) have "map_of (own obj) k = Some r \<or> (proto obj = Some r \<and> k = ''__proto__'')"
    by (auto simp: get_property_def split: option.splits if_splits)
  with inv show ?thesis by auto
qed

lemma getEmailsMetadata_Inherited:
  assumes "getEmailsMetadata ids u env = (Inr obj, env1)"
    and "get_property obj k = Inherited"
    and "''__proto__'' \<notin> set (map e_memoryId (emails env))"
  shows "k \<in> set object_prototype_keys"
proof -
  let ?rows = "filter (\<lambda>r. e_memoryId r \<in> set ids \<and> e_userId r = u) (emails env)"
  let ?f = "\<lambda>records row. set_property records (e_memoryId row) row"
  from assms(1) have "obj = empty_object \<or> obj = foldl ?f empty_object ?rows"
    by (auto simp: getEmailsMetadata_def d1_def external_eq sql_select_emails_in_def Let_def
        split: if_splits option.splits)
  then have o: "proto obj = None \<or> proto obj = proto (foldl ?f empty_object ?rows)"
    by (auto simp: empty_object_def)
  have "proto obj = None"
  proof (cases "proto obj")
    case None
    then show ?thesis .
  next
    case (Some p)
    with o have "proto (foldl ?f empty_object ?rows) = Some p" by simp
    from records_invariant[of empty_object ?rows k p, THEN conjunct2, rule_format, OF this]
    have "p \<in> set ?rows \<and> e_memoryId p = ''__proto__''"
      unfolding empty_object_def by fastforce
    then have "''__proto__'' \<in> set (map e_memoryId (emails env))"
      by force
    with assms(3) show ?thesis by simp
  qed
  with assms(2) show ?thesis
    by (auto simp: get_property_def split: option.splits if_splits)
qed

lemma set_map_filter: "h \<in> set (List.map_filter f xs) \<longleftrightarrow> (\<exists>x \<in> set xs. f x = Some h)"
  by (induction xs) (auto simp: List.map_filter_simps split: option.splits)

lemma search_hits_are_backed:
  assumes "searchMemories q u env = Inr ms"
    and "searchEmailMemories searchMemories q u env co = (Inr hits, env1)"
    and "Hit row s \<in> set hits"
  shows "row \<in> set (emails env) \<and> e_userId row = u \<and>
         (\<exists>m \<in> set ms. match_id m = e_memoryId row \<and> score m = s)"
proof -
  from assms(1,2) obtain obj where g: "getEmailsMetadata (map match_id ms) u env = (Inr obj, env1)"
    and hits: "hits = List.map_filter (merge_match obj co) ms"
    by (auto simp: searchEmailMemories_def Let_def split: sum.splits prod.splits)
  from assms(3) obtain m where m: "m \<in> set ms" "merge_match obj co m = Some (Hit row s)"
    unfolding hits set_map_filter by blast
  then have "get_property obj (match_id m) = Row row" "s = score m"
    by (auto simp: merge_match_def split: property.splits if_splits)
  then have r: "get_property obj (match_id m) = Row row" and sc: "score m = s"
    by simp_all
  from getEmailsMetadata_Row[OF g r]
  have "row \<in> set (emails env)" "e_userId row = u" "match_id m = e_memoryId row"
    by simp_all
  with m(1) sc show ?thesis by blast
qed

lemma search_bare_hits_have_inherited_names:
  assumes "searchMemories q u env = Inr ms"
    and "searchEmailMemories searchMemories q u env co = (Inr hits, env1)"
    and "Bare s \<in> set hits"
    and "''__proto__'' \<notin> set (map e_memoryId (emails env))"
  shows "\<exists>m \<in> set ms. score m = s \<and> match_id m \<in> set object_prototype_keys"
proof -
  from assms(1,2) obtain obj where g: "getEmailsMetadata (map match_id ms) u env = (Inr obj, env1)"
    and hits: "hits = List.map_filter (merge_match obj co) ms"
    by (auto simp: searchEmailMemories_def Let_def split: sum.splits prod.splits)
  from assms(3) obtain m where m: "m \<in> set ms" "merge_match obj co m = Some (Bare s)"
    unfolding hits set_map_filter by blast
  then have "get_property obj (match_id m) = Inherited" "s = score m"
    by (auto simp: merge_match_def split: property.splits if_splits)
  then have r: "get_property obj (match_id m) = Inherited" and sc: "score m = s"
    by simp_all
  from getEmailsMetadata_Inherited[OF g r assms(4)] m(1) sc show ?thesis by blast
qed

lemma deleteMemoryFromD1_calls:
  "calls (snd (deleteMemoryFromD1 memoryId userId env)) =
     calls env @ [D1Query ''DELETE FROM memories WHERE id = ? AND userId = ?'' [memoryId, userId]]"
  by (simp add: deleteMemoryFromD1_def d1_def external_eq sql_delete_memories_def Let_def
      console_log_def console_error_def split: option.splits)

lemma deleteVectorById_calls:
  "calls (snd (deleteVectorById memoryId userId env)) = calls env @ [VectorizeDelete userId memoryId]"
  by (simp add: deleteVectorById_def vectorize_delete_def external_eq split: option.splits)

lemma delete_memory_route_calls:
  "calls (snd (delete_memory_route userId memoryId env)) =
     calls env @
       (if goes_through env
        then [D1Query ''DELETE FROM memories WHERE id = ? AND userId = ?'' [memoryId, userId],
              VectorizeDelete userId memoryId]
        else [D1Query ''DELETE FROM memories WHERE id = ? AND userId = ?'' [memoryId, userId]])"
proof (cases "deleteMemoryFromD1 memoryId userId env")
  case (Pair res env1)
  have c1: "calls env1 =
      calls env @ [D1Query ''DELETE FROM memories WHERE id = ? AND userId = ?'' [memoryId, userId]]"
    using deleteMemoryFromD1_calls[of memoryId userId env] Pair by simp
  show ?thesis
  proof (cases res)
    case (Inl e)
    with Pair have a: "deleteMemoryFromD1 memoryId userId env = (Inl e, env1)" by simp
    show ?thesis
      using deleteMemoryFromD1_Inl[OF a] c1
      by (simp add: delete_memory_route_def a console_error_def)
  next
    case (Inr u)
    with Pair have a: "deleteMemoryFromD1 memoryId userId env = (Inr u, env1)" by simp
    let ?env2 = "console_log (deleted_log memoryId userId) env1"
    obtain r env3 where b: "deleteVectorById memoryId userId ?env2 = (r, env3)"
      by (cases "deleteVectorById memoryId userId ?env2")
    have c3: "calls env3 = calls ?env2 @ [VectorizeDelete userId memoryId]"
      using deleteVectorById_calls[of memoryId userId ?env2] b by simp
    have route: "calls (snd (delete_memory_route userId memoryId env)) = calls env3"
      using a b
      by (cases r; simp add: delete_memory_route_def deleted_log_def Let_def console_error_def
            console_log_def)
    show ?thesis
      using deleteMemoryFromD1_Inr[OF a] c1 c3 route
      by (simp add: console_log_def)
  qed
qed

lemma delete_memory_route_missing:
  assumes "\<forall>r \<in> set (memories env). \<not> targets memoryId userId r"
  shows "(goes_through env \<longrightarrow>
            fst (delete_memory_route userId memoryId env) = \<lparr>status = 200, reply = Success ()\<rparr>)
       \<and> (\<not> goes_through env \<longrightarrow>
            fst (delete_memory_route userId memoryId env) =
              \<lparr>status = 500, reply = Failure ''Failed to delete memory''\<rparr>)
       \<and> memories (snd (delete_memory_route userId memoryId env)) = memories env
       \<and> emails (snd (delete_memory_route userId memoryId env)) = emails env"
proof (cases "deleteMemoryFromD1 memoryId userId env")
  case (Pair res env1)
  have keep: "filter (\<lambda>r. \<not> targets memoryId userId r) (memories env) = memories env"
    using assms by (simp add: filter_id_conv)
  show ?thesis
  proof (cases res)
    case (Inl e)
    with Pair have a: "deleteMemoryFromD1 memoryId userId env = (Inl e, env1)" by simp
    show ?thesis
      using deleteMemoryFromD1_Inl[OF a]
      by (simp add: delete_memory_route_def a console_error_def)
  next
    case (Inr u)
    with Pair have a: "deleteMemoryFromD1 memoryId userId env = (Inr u, env1)" by simp
    obtain r env2 where b: "deleteVectorById memoryId userId
        (console_log (''Deleted memory '' @ memoryId @ '' for user '' @ userId @ '' from D1.'') env1) = (r, env2)"
      by (cases "deleteVectorById memoryId userId
        (console_log (''Deleted memory '' @ memoryId @ '' for user '' @ userId @ '' from D1.'') env1)")
    have route: "fst (delete_memory_route userId memoryId env) = \<lparr>status = 200, reply = Success ()\<rparr> \<and>
        memories (snd (delete_memory_route userId memoryId env)) = memories env2 \<and>
        emails (snd (delete_memory_route userId memoryId env)) = emails env2"
      using a b
      by (cases r; simp add: delete_memory_route_def Let_def console_error_def console_log_def)
    show ?thesis
      using deleteMemoryFromD1_Inr[OF a] deleteVectorById_frame[OF b] keep route
      by (simp add: console_log_def)
  qed
qed

text \<open>
  What \<open>extractCompanyFromEmail\<close> computes: the group is taken at the first \<open>@\<close> from which
  the attempt succeeds. On the examples of the specification, which have one \<open>@\<close>, this is
  the label of the domain.
\<close>

lemma extractCompanyFromEmail_Some:
  "extractCompanyFromEmail s = Some c \<longleftrightarrow>
     (\<exists>g. regex_match s = Some g \<and>
          first_label (split_str (CHR ''.'') (toLowerCase g)) = Some c)"
  by (auto simp: extractCompanyFromEmail_def Let_def split: option.splits)

lemma extractCompanyFromEmail_examples:
  "extractCompanyFromEmail ''a@mail.acme.co.uk'' = Some ''acme''"
  "extractCompanyFromEmail ''a@acme.com'' = Some ''acme''"
  "extractCompanyFromEmail ''a@sub.io'' = Some ''sub''"
  "extractCompanyFromEmail ''not-an-email'' = None"
  by (simp_all add: extractCompanyFromEmail_def tail_match_def toLowerCase_def isUpper_def
      first_label_def)

section \<open>The claims\<close>

text \<open>
  C1. A structured create whose write of the content row fails aborts with the error of the
  Content Store: \<open>storeEmailMemory\<close> throws it, the three stores are as before, and the only
  external call made is the insertion into \<open>memories\<close>, so that no embedding, no index write
  and no write of the structured row is attempted. When the content row is written and the
  embedding or the index step fails, that error is thrown to the caller, the content row stays,
  and neither the index nor the table \<open>emails\<close> is written. In both cases the handler answers
  500.
\<close>

theorem storeEmailMemory_failure_policy:
  "(storeMemoryInD1 (email_text email) userId env uuid = (Inl e, env1) \<longrightarrow>
      storeEmailMemory email userId env uuid = (Inl e, env1) \<and> (\<exists>msg. e = D1Error msg) \<and>
      memories env1 = memories env \<and> emails env1 = emails env \<and> vectors env1 = vectors env \<and>
      calls env1 = calls env @ [insert_memories_call uuid userId (email_text email)] \<and>
      (\<forall>j. truthy (j_subject j) \<and> truthy (j_body j) \<and> truthy (j_sender j) \<and>
           as_EmailData j = email \<longrightarrow>
           post_emails_route userId (Parsed (Some j)) env uuid =
             (\<lparr>status = 500, reply = Failure ''Failed to store email''\<rparr>,
              console_error ''Error storing email'' e env1)))
   \<and> (storeMemoryInD1 (email_text email) userId env uuid = (Inr i, env1) \<and>
       storeMemory (email_text email) userId env1 (email_metadata email) uuid = (Inl e', env2) \<longrightarrow>
      storeEmailMemory email userId env uuid = (Inl e', env2) \<and>
      ((\<exists>msg. e' = AiError msg) \<or> (\<exists>msg. e' = VectorizeError msg)) \<and>
      memories env2 = memories env @
        [\<lparr>m_id = uuid, m_userId = userId, m_content = email_text email,
          m_created_at = now env\<rparr>] \<and>
      emails env2 = emails env \<and> vectors env2 = vectors env \<and>
      \<not> list_ex writes_emails (drop (length (calls env)) (calls env2)) \<and>
      (\<forall>j. truthy (j_subject j) \<and> truthy (j_body j) \<and> truthy (j_sender j) \<and>
           as_EmailData j = email \<longrightarrow>
           post_emails_route userId (Parsed (Some j)) env uuid =
             (\<lparr>status = 500, reply = Failure ''Failed to store email''\<rparr>,
              console_error ''Error storing email'' e' env2)))"
proof (intro conjI impI allI)
  assume a: "storeMemoryInD1 (email_text email) userId env uuid = (Inl e, env1)"
  show s: "storeEmailMemory email userId env uuid = (Inl e, env1)"
    by (simp add: storeEmailMemory_unfold a)
  show "\<exists>msg. e = D1Error msg" "memories env1 = memories env" "emails env1 = emails env"
    "vectors env1 = vectors env"
    "calls env1 = calls env @ [insert_memories_call uuid userId (email_text email)]"
    using storeMemoryInD1_Inl[OF a] by simp_all
  fix j
  assume "truthy (j_subject j) \<and> truthy (j_body j) \<and> truthy (j_sender j) \<and> as_EmailData j = email"
  then show "post_emails_route userId (Parsed (Some j)) env uuid =
      (\<lparr>status = 500, reply = Failure ''Failed to store email''\<rparr>,
       console_error ''Error storing email'' e env1)"
    using s by (simp add: post_emails_route_failure)
next
  assume "storeMemoryInD1 (email_text email) userId env uuid = (Inr i, env1) \<and>
       storeMemory (email_text email) userId env1 (email_metadata email) uuid = (Inl e', env2)"
  then have a: "storeMemoryInD1 (email_text email) userId env uuid = (Inr i, env1)"
    and b: "storeMemory (email_text email) userId env1 (email_metadata email) uuid = (Inl e', env2)"
    by simp_all
  note A = storeMemoryInD1_Inr[OF a] and B = storeMemory_Inl[OF b]
  show s: "storeEmailMemory email userId env uuid = (Inl e', env2)"
    by (simp add: storeEmailMemory_unfold a b)
  show "(\<exists>msg. e' = AiError msg) \<or> (\<exists>msg. e' = VectorizeError msg)"
    using B by simp
  show "memories env2 = memories env @
      [\<lparr>m_id = uuid, m_userId = userId, m_content = email_text email, m_created_at = now env\<rparr>]"
    using A B by simp
  show "emails env2 = emails env" "vectors env2 = vectors env"
    using A B by simp_all
  show "\<not> list_ex writes_emails (drop (length (calls env)) (calls env2))"
    using A B by (auto simp: writes_emails_def insert_memories_call_def)
  fix j
  assume "truthy (j_subject j) \<and> truthy (j_body j) \<and> truthy (j_sender j) \<and> as_EmailData j = email"
  then show "post_emails_route userId (Parsed (Some j)) env uuid =
      (\<lparr>status = 500, reply = Failure ''Failed to store email''\<rparr>,
       console_error ''Error storing email'' e' env2)"
    using s by (simp add: post_emails_route_failure)
qed

theorem storeEmailMemory_failure_policy_witness:
  "fst (storeEmailMemory memo ''u1'' (world\<lparr>outcomes := [Some ''D1 down'']\<rparr>) ''m3'') =
     Inl (D1Error ''D1 down'')
   \<and> memories (snd (storeEmailMemory memo ''u1'' (world\<lparr>outcomes := [Some ''D1 down'']\<rparr>) ''m3'')) =
     memories world
   \<and> fst (storeEmailMemory memo ''u1'' (world\<lparr>outcomes := [None, Some ''AI down'']\<rparr>) ''m3'') =
     Inl (AiError ''AI down'')
   \<and> emails (snd (storeEmailMemory memo ''u1'' (world\<lparr>outcomes := [None, Some ''AI down'']\<rparr>) ''m3'')) =
     emails world
   \<and> length (memories (snd (storeEmailMemory memo ''u1''
        (world\<lparr>outcomes := [None, Some ''AI down'']\<rparr>) ''m3''))) = 3"
proof -
  let ?E1 = "world\<lparr>outcomes := [Some ''D1 down'']\<rparr>"
  let ?E2 = "world\<lparr>outcomes := [None, Some ''AI down'']\<rparr>"
  let ?s1 = "storeMemoryInD1 (email_text memo) ''u1'' ?E1 ''m3''"
  let ?s2 = "storeMemoryInD1 (email_text memo) ''u1'' ?E2 ''m3''"
  let ?v2 = "storeMemory (email_text memo) ''u1'' (snd ?s2) (email_metadata memo) ''m3''"
  have "fst ?s1 = Inl (D1Error ''D1 down'')"
    by (simp add: run_defs email_text_def email_metadata_def email_company_def email_recipients_def
        world_def memo_def)
  then have h1: "?s1 = (Inl (D1Error ''D1 down''), snd ?s1)"
    by (metis prod.collapse)
  have "fst ?s2 = Inr ''m3''"
    by (simp add: run_defs email_text_def email_metadata_def email_company_def email_recipients_def
        world_def memo_def)
  then have h2: "?s2 = (Inr ''m3'', snd ?s2)"
    by (metis prod.collapse)
  have "fst ?v2 = Inl (AiError ''AI down'')"
    by (simp add: run_defs email_text_def email_metadata_def email_company_def email_recipients_def
        world_def memo_def)
  then have h3: "?v2 = (Inl (AiError ''AI down''), snd ?v2)"
    by (metis prod.collapse)
  note first = storeEmailMemory_failure_policy
    [of memo "''u1''" ?E1 "''m3''" "D1Error ''D1 down''" "snd ?s1", THEN conjunct1, rule_format, OF h1]
  note second = storeEmailMemory_failure_policy
    [of memo "''u1''" ?E2 "''m3''" _ "snd ?s2" "''m3''" "AiError ''AI down''" "snd ?v2",
     THEN conjunct2, rule_format, OF conjI [OF h2 h3]]
  have a: "storeEmailMemory memo ''u1'' ?E1 ''m3'' = (Inl (D1Error ''D1 down''), snd ?s1)"
    and b: "memories (snd ?s1) = memories ?E1"
    using first by simp_all
  have c: "storeEmailMemory memo ''u1'' ?E2 ''m3'' = (Inl (AiError ''AI down''), snd ?v2)"
    and d: "emails (snd ?v2) = emails ?E2"
    and m: "memories (snd ?v2) = memories ?E2 @
        [\<lparr>m_id = ''m3'', m_userId = ''u1'', m_content = email_text memo, m_created_at = now ?E2\<rparr>]"
    using second by simp_all
  show ?thesis
    by (simp add: a b c d m) (simp add: world_def)
qed

text \<open>
  C2. The search drops a match without a row only when reading its id on the metadata object
  yields \<open>undefined\<close>. For the id \<open>constructor\<close>, which no row of \<open>emails\<close> carries, the read
  yields the function inherited from \<open>Object.prototype\<close>, the test \<open>!meta\<close> lets it pass, and
  the search returns a hit made of the score alone, with no record behind it.
\<close>

theorem search_returns_hit_without_record:
  "filter (\<lambda>r. e_memoryId r = ''constructor'') (emails world) = []
   \<and> fst (searchEmailMemories stray_ranking ''offer'' ''u1'' world None) = Inr [Bare 9]"
  by (simp add: search_defs run_defs stray_ranking_def world_def acme_row_def sub_row_def)

text \<open>
  C3. With a non-empty company as filter, the search returns the hits of the unfiltered search
  whose company is the filter value, all of them and no other, in the order they have there:
  the result is the unfiltered result filtered, hence a subsequence of it; and the scores of
  the unfiltered result are a subsequence of the scores of the ranked matches, so that no
  step re-sorts.
\<close>

theorem search_filter_preserves_ranking:
  assumes "c \<noteq> []"
    and "searchMemories query userId env = Inr vectorResults"
    and "searchEmailMemories searchMemories query userId env None = (Inr unfiltered, env1)"
  shows "searchEmailMemories searchMemories query userId env (Some c) =
           (Inr (filter (\<lambda>h. hit_company h = Some c) unfiltered), env1)
         \<and> subseq (filter (\<lambda>h. hit_company h = Some c) unfiltered) unfiltered
         \<and> subseq (map hit_score unfiltered) (map score vectorResults)"
  using assms
  by (auto simp: searchEmailMemories_def Let_def map_filter_as_filter[OF merge_match_filtered]
        intro!: map_filter_keeps_order merge_match_score split: sum.splits prod.splits)

theorem search_filter_preserves_ranking_witness:
  "fst (searchEmailMemories ranking ''offer'' ''u1'' world None) =
     Inr [Hit sub_row 9, Hit acme_row 7]
   \<and> fst (searchEmailMemories ranking ''offer'' ''u1'' world (Some ''acme'')) =
     Inr [Hit acme_row 7]"
proof -
  let ?all = "searchEmailMemories ranking ''offer'' ''u1'' world None"
  have u: "fst ?all = Inr [Hit sub_row 9, Hit acme_row 7]"
    by (simp add: search_defs run_defs ranking_def world_def acme_row_def sub_row_def)
  then have h: "?all = (Inr [Hit sub_row 9, Hit acme_row 7], snd ?all)"
    by (metis prod.collapse)
  have r: "ranking ''offer'' ''u1'' world =
      Inr [\<lparr>match_id = ''m2'', score = 9\<rparr>, \<lparr>match_id = ''gone'', score = 8\<rparr>,
           \<lparr>match_id = ''m1'', score = 7\<rparr>]"
    by (simp add: ranking_def)
  have ne: "''acme'' \<noteq> []" by simp
  from search_filter_preserves_ranking[OF ne r h]
  have "fst (searchEmailMemories ranking ''offer'' ''u1'' world (Some ''acme'')) =
      Inr (filter (\<lambda>h. hit_company h = Some ''acme'') [Hit sub_row 9, Hit acme_row 7])"
    by simp
  then show ?thesis
    using u by (simp add: hit_company_def acme_row_def sub_row_def)
qed

text \<open>
  C4. When the Content Store step of a delete or of an update of a memory succeeds and the
  Vector Index step that follows throws, the handler logs the error on the console and answers
  200 with \<open>success: true\<close>; the table \<open>memories\<close> keeps the change (the row is gone, or has
  the new content) and the index is as it was.
\<close>

theorem index_failure_is_swallowed:
  "(deleteMemoryFromD1 memoryId userId env = (Inr u, env1) \<and>
    deleteVectorById memoryId userId (console_log (deleted_log memoryId userId) env1) = (Inl ve, env2) \<longrightarrow>
      fst (delete_memory_route userId memoryId env) = \<lparr>status = 200, reply = Success ()\<rparr> \<and>
      memories (snd (delete_memory_route userId memoryId env)) =
        filter (\<lambda>r. \<not> targets memoryId userId r) (memories env) \<and>
      vectors (snd (delete_memory_route userId memoryId env)) = vectors env \<and>
      console (snd (delete_memory_route userId memoryId env)) =
        console env2 @
        [ConsoleError (''Failed to delete vector '' @ memoryId @ '' for user '' @ userId @
                       '' from Vectorize:'') ve])
   \<and> (content b = Some c \<and> trim c \<noteq> [] \<and>
       updateMemoryInD1 memoryId userId (trim c) env = (Inr u, env1) \<and>
       updateMemoryVector memoryId (trim c) userId (console_log (updated_log memoryId userId) env1) =
         (Inl ve, env2) \<longrightarrow>
      fst (put_memory_route userId memoryId (Parsed (Some b)) env) =
        \<lparr>status = 200, reply = Success ()\<rparr> \<and>
      memories (snd (put_memory_route userId memoryId (Parsed (Some b)) env)) =
        map (\<lambda>r. if targets memoryId userId r then r\<lparr>m_content := trim c\<rparr> else r) (memories env) \<and>
      vectors (snd (put_memory_route userId memoryId (Parsed (Some b)) env)) = vectors env \<and>
      console (snd (put_memory_route userId memoryId (Parsed (Some b)) env)) =
        console env2 @
        [ConsoleError (''Failed to update vector '' @ memoryId @ '' for user '' @ userId @
                       '' in Vectorize:'') ve])"
proof (intro conjI impI)
  assume "deleteMemoryFromD1 memoryId userId env = (Inr u, env1) \<and>
    deleteVectorById memoryId userId (console_log (deleted_log memoryId userId) env1) = (Inl ve, env2)"
  then have a: "deleteMemoryFromD1 memoryId userId env = (Inr u, env1)"
    and b: "deleteVectorById memoryId userId (console_log (deleted_log memoryId userId) env1) = (Inl ve, env2)"
    by simp_all
  have r: "delete_memory_route userId memoryId env =
      (\<lparr>status = 200, reply = Success ()\<rparr>,
       console_error (''Failed to delete vector '' @ memoryId @ '' for user '' @ userId @
                      '' from Vectorize:'') ve env2)"
    using a b by (simp add: delete_memory_route_def deleted_log_def Let_def)
  note A = deleteMemoryFromD1_Inr[OF a] and B = deleteVectorById_frame[OF b]
  show "fst (delete_memory_route userId memoryId env) = \<lparr>status = 200, reply = Success ()\<rparr>"
    by (simp add: r)
  show "memories (snd (delete_memory_route userId memoryId env)) =
        filter (\<lambda>r. \<not> targets memoryId userId r) (memories env)"
    using A B by (simp add: r console_error_def console_log_def)
  show "vectors (snd (delete_memory_route userId memoryId env)) = vectors env"
    using A B by (simp add: r console_error_def console_log_def)
  show "console (snd (delete_memory_route userId memoryId env)) =
        console env2 @
        [ConsoleError (''Failed to delete vector '' @ memoryId @ '' for user '' @ userId @
                       '' from Vectorize:'') ve]"
    by (simp add: r console_error_def)
next
  assume "content b = Some c \<and> trim c \<noteq> [] \<and>
       updateMemoryInD1 memoryId userId (trim c) env = (Inr u, env1) \<and>
       updateMemoryVector memoryId (trim c) userId (console_log (updated_log memoryId userId) env1) =
         (Inl ve, env2)"
  then have v: "content b = Some c" "trim c \<noteq> []"
    and a: "updateMemoryInD1 memoryId userId (trim c) env = (Inr u, env1)"
    and b: "updateMemoryVector memoryId (trim c) userId (console_log (updated_log memoryId userId) env1) =
         (Inl ve, env2)"
    by simp_all
  have r: "put_memory_route userId memoryId (Parsed (Some b)) env =
      (\<lparr>status = 200, reply = Success ()\<rparr>,
       console_error (''Failed to update vector '' @ memoryId @ '' for user '' @ userId @
                      '' in Vectorize:'') ve env2)"
    using v a b by (simp add: put_memory_route_def updated_log_def Let_def)
  note A = updateMemoryInD1_Inr[OF a] and B = updateMemoryVector_Inl[OF b]
  show "fst (put_memory_route userId memoryId (Parsed (Some b)) env) =
        \<lparr>status = 200, reply = Success ()\<rparr>"
    by (simp add: r)
  show "memories (snd (put_memory_route userId memoryId (Parsed (Some b)) env)) =
        map (\<lambda>r. if targets memoryId userId r then r\<lparr>m_content := trim c\<rparr> else r) (memories env)"
    using A B by (simp add: r console_error_def console_log_def)
  show "vectors (snd (put_memory_route userId memoryId (Parsed (Some b)) env)) = vectors env"
    using A B by (simp add: r console_error_def console_log_def)
  show "console (snd (put_memory_route userId memoryId (Parsed (Some b)) env)) =
        console env2 @
        [ConsoleError (''Failed to update vector '' @ memoryId @ '' for user '' @ userId @
                       '' in Vectorize:'') ve]"
    by (simp add: r console_error_def)
qed

theorem index_failure_is_swallowed_witness:
  "fst (delete_memory_route ''u1'' ''m1'' (world\<lparr>outcomes := [None, Some ''index down'']\<rparr>)) =
     \<lparr>status = 200, reply = Success ()\<rparr>
   \<and> map m_id (memories (snd (delete_memory_route ''u1'' ''m1''
        (world\<lparr>outcomes := [None, Some ''index down'']\<rparr>)))) = [''m2'']
   \<and> vectors (snd (delete_memory_route ''u1'' ''m1''
        (world\<lparr>outcomes := [None, Some ''index down'']\<rparr>))) = vectors world
   \<and> fst (put_memory_route ''u1'' ''m1'' (Parsed (Some \<lparr>content = Some ''New offer''\<rparr>))
        (world\<lparr>outcomes := [None, Some ''AI down'']\<rparr>)) =
     \<lparr>status = 200, reply = Success ()\<rparr>
   \<and> map m_content (memories (snd (put_memory_route ''u1'' ''m1''
        (Parsed (Some \<lparr>content = Some ''New offer''\<rparr>))
        (world\<lparr>outcomes := [None, Some ''AI down'']\<rparr>)))) = [''New offer'', ''Invoice'']
   \<and> vectors (snd (put_memory_route ''u1'' ''m1'' (Parsed (Some \<lparr>content = Some ''New offer''\<rparr>))
        (world\<lparr>outcomes := [None, Some ''AI down'']\<rparr>))) = vectors world"
proof -
  let ?E = "world\<lparr>outcomes := [None, Some ''index down'']\<rparr>"
  let ?F = "world\<lparr>outcomes := [None, Some ''AI down'']\<rparr>"
  let ?d = "deleteMemoryFromD1 ''m1'' ''u1'' ?E"
  let ?dv = "deleteVectorById ''m1'' ''u1'' (console_log (deleted_log ''m1'' ''u1'') (snd ?d))"
  let ?u = "updateMemoryInD1 ''m1'' ''u1'' (trim ''New offer'') ?F"
  let ?uv = "updateMemoryVector ''m1'' (trim ''New offer'') ''u1''
               (console_log (updated_log ''m1'' ''u1'') (snd ?u))"
  have t: "trim ''New offer'' = ''New offer''"
    by (simp add: trim_def isWhiteSpace_def)
  have "fst ?d = Inr ()" by (simp add: run_defs world_def)
  then have d: "?d = (Inr (), snd ?d)" by (metis prod.collapse)
  have "fst ?dv = Inl (VectorizeError ''index down'')"
    by (simp add: run_defs world_def deleted_log_def)
  then have dv: "?dv = (Inl (VectorizeError ''index down''), snd ?dv)" by (metis prod.collapse)
  have "fst ?u = Inr ()" by (simp add: t) (simp add: run_defs world_def)
  then have u: "?u = (Inr (), snd ?u)" by (metis prod.collapse)
  have "fst ?uv = Inl (AiError ''AI down'')"
    by (simp add: t) (simp add: run_defs world_def updated_log_def)
  then have uv: "?uv = (Inl (AiError ''AI down''), snd ?uv)" by (metis prod.collapse)
  have c: "content \<lparr>content = Some ''New offer''\<rparr> = Some ''New offer''" by simp
  have n: "trim ''New offer'' \<noteq> []" by (simp add: t)
  note del = index_failure_is_swallowed
    [of "''m1''" "''u1''" ?E "()" "snd ?d" "VectorizeError ''index down''" "snd ?dv",
     THEN conjunct1, rule_format, OF conjI [OF d dv]]
  note upd = index_failure_is_swallowed
    [of "''m1''" "''u1''" ?F "()" "snd ?u" "AiError ''AI down''" "snd ?uv"
        "\<lparr>content = Some ''New offer''\<rparr>" "''New offer''",
     THEN conjunct2, rule_format, OF conjI [OF c conjI [OF n conjI [OF u uv]]]]
  have m: "memories ?E = memories world" "memories ?F = memories world"
    "vectors ?E = vectors world" "vectors ?F = vectors world"
    by simp_all
  have k: "map m_id (filter (\<lambda>r. \<not> targets ''m1'' ''u1'' r) (memories world)) = [''m2'']"
    "map m_content (map (\<lambda>r. if targets ''m1'' ''u1'' r then r\<lparr>m_content := ''New offer''\<rparr> else r)
       (memories world)) = [''New offer'', ''Invoice'']"
    by (simp_all add: world_def targets_def)
  from del have "fst (delete_memory_route ''u1'' ''m1'' ?E) = \<lparr>status = 200, reply = Success ()\<rparr>"
    and "map m_id (memories (snd (delete_memory_route ''u1'' ''m1'' ?E))) = [''m2'']"
    and "vectors (snd (delete_memory_route ''u1'' ''m1'' ?E)) = vectors world"
    by (simp_all only: m k)
  moreover from upd [unfolded t]
  have "fst (put_memory_route ''u1'' ''m1'' (Parsed (Some \<lparr>content = Some ''New offer''\<rparr>)) ?F) =
      \<lparr>status = 200, reply = Success ()\<rparr>"
    and "map m_content (memories (snd (put_memory_route ''u1'' ''m1''
        (Parsed (Some \<lparr>content = Some ''New offer''\<rparr>)) ?F))) = [''New offer'', ''Invoice'']"
    and "vectors (snd (put_memory_route ''u1'' ''m1''
        (Parsed (Some \<lparr>content = Some ''New offer''\<rparr>)) ?F)) = vectors world"
    by (simp_all only: m k)
  ultimately show ?thesis
    by (intro conjI)
qed

text \<open>
  C5. An update that goes through to the Content Store and addresses an id and owner with no row
  changes no row: \<open>updateMemoryInD1\<close> throws the not-found error, the handler answers 404 with
  its message, the three stores are as before, and the only external call made is the
  \<open>UPDATE\<close> statement, so that the Vector Index is not touched.
\<close>

theorem update_missing_is_not_found:
  assumes "content b = Some c" and "trim c \<noteq> []"
    and "goes_through env"
    and "\<forall>r \<in> set (memories env). \<not> targets memoryId userId r"
  shows "fst (updateMemoryInD1 memoryId userId (trim c) env) =
           Inl (Error (not_found_message memoryId userId))
       \<and> fst (put_memory_route userId memoryId (Parsed (Some b)) env) =
           \<lparr>status = 404, reply = Failure (not_found_message memoryId userId)\<rparr>
       \<and> memories (snd (put_memory_route userId memoryId (Parsed (Some b)) env)) = memories env
       \<and> emails (snd (put_memory_route userId memoryId (Parsed (Some b)) env)) = emails env
       \<and> vectors (snd (put_memory_route userId memoryId (Parsed (Some b)) env)) = vectors env
       \<and> calls (snd (put_memory_route userId memoryId (Parsed (Some b)) env)) =
           calls env @ [D1Query ''UPDATE memories SET content = ? WHERE id = ? AND userId = ?''
                          [trim c, memoryId, userId]]"
  by (simp add: put_memory_route_missing[OF assms] updateMemoryInD1_missing[OF assms(3,4)])

theorem update_missing_is_not_found_witness:
  "fst (put_memory_route ''u1'' ''gone'' (Parsed (Some \<lparr>content = Some '' new text ''\<rparr>)) world) =
     \<lparr>status = 404,
      reply = Failure ''Memory with ID gone not found for user u1 or content unchanged.''\<rparr>
   \<and> memories (snd (put_memory_route ''u1'' ''gone'' (Parsed (Some \<lparr>content = Some '' new text ''\<rparr>)) world)) =
     memories world
   \<and> calls (snd (put_memory_route ''u1'' ''gone'' (Parsed (Some \<lparr>content = Some '' new text ''\<rparr>)) world)) =
     [D1Query ''UPDATE memories SET content = ? WHERE id = ? AND userId = ?''
        [''new text'', ''gone'', ''u1'']]"
proof -
  have 1: "content \<lparr>content = Some '' new text ''\<rparr> = Some '' new text ''" by simp
  have t: "trim '' new text '' = ''new text''" by (simp add: trim_def isWhiteSpace_def)
  then have 2: "trim '' new text '' \<noteq> []" by simp
  have 3: "goes_through world" by (simp add: goes_through_def world_def)
  have 4: "\<forall>r \<in> set (memories world). \<not> targets ''gone'' ''u1'' r"
    by (simp add: world_def targets_def)
  have c: "calls world = []" by (simp add: world_def)
  show ?thesis
    using update_missing_is_not_found[OF 1 2 3 4] by (simp add: t c not_found_message_def)
qed

text \<open>
  C6. The claim as stated fails: a delete of a memory that does not exist for the owner is
  answered 200 with \<open>success: true\<close>, not 404.
\<close>

theorem delete_missing_counterexample:
  "filter (targets ''gone'' ''u1'') (memories world) = [] \<and>
   fst (delete_memory_route ''u1'' ''gone'' world) = \<lparr>status = 200, reply = Success ()\<rparr>"
  by (simp add: delete_memory_route_def run_defs world_def targets_def)

text \<open>
  C6, amended. A delete of a memory (\<open>DELETE /:userId/memories/:memoryId\<close>) whose target does
  not exist for the owner raises no not-found error and is never answered 404. When the
  \<open>DELETE\<close> statement goes through, the handler goes on to the Vector Index, asks it to delete
  the entry of that id in the namespace of the owner, and answers 200 with \<open>success: true\<close>;
  the external calls made are that statement and that deletion, in this order. When the
  statement fails, the handler answers 500 and the statement is the only external call made.
  Either way the tables \<open>memories\<close> and \<open>emails\<close> are as before.
\<close>

theorem delete_missing_reports_success:
  assumes "\<forall>r \<in> set (memories env). \<not> targets memoryId userId r"
  shows "(goes_through env \<longrightarrow>
            fst (delete_memory_route userId memoryId env) = \<lparr>status = 200, reply = Success ()\<rparr> \<and>
            calls (snd (delete_memory_route userId memoryId env)) =
              calls env @
                [D1Query ''DELETE FROM memories WHERE id = ? AND userId = ?'' [memoryId, userId],
                 VectorizeDelete userId memoryId])
       \<and> (\<not> goes_through env \<longrightarrow>
            fst (delete_memory_route userId memoryId env) =
              \<lparr>status = 500, reply = Failure ''Failed to delete memory''\<rparr> \<and>
            calls (snd (delete_memory_route userId memoryId env)) =
              calls env @
                [D1Query ''DELETE FROM memories WHERE id = ? AND userId = ?'' [memoryId, userId]])
       \<and> status (fst (delete_memory_route userId memoryId env)) \<noteq> 404
       \<and> memories (snd (delete_memory_route userId memoryId env)) = memories env
       \<and> emails (snd (delete_memory_route userId memoryId env)) = emails env"
proof -
  note m = delete_memory_route_missing[OF assms]
  note c = delete_memory_route_calls[of userId memoryId env]
  show ?thesis
  proof (cases "goes_through env")
    case True
    with m c show ?thesis by simp
  next
    case False
    with m c show ?thesis by simp
  qed
qed

theorem delete_missing_reports_success_witness:
  "fst (delete_memory_route ''u1'' ''gone'' world) = \<lparr>status = 200, reply = Success ()\<rparr>
   \<and> calls (snd (delete_memory_route ''u1'' ''gone'' world)) =
       [D1Query ''DELETE FROM memories WHERE id = ? AND userId = ?'' [''gone'', ''u1''],
        VectorizeDelete ''u1'' ''gone'']
   \<and> memories (snd (delete_memory_route ''u1'' ''gone'' world)) = memories world
   \<and> fst (delete_memory_route ''u1'' ''gone'' (world\<lparr>outcomes := [Some ''D1 down'']\<rparr>)) =
       \<lparr>status = 500, reply = Failure ''Failed to delete memory''\<rparr>
   \<and> calls (snd (delete_memory_route ''u1'' ''gone'' (world\<lparr>outcomes := [Some ''D1 down'']\<rparr>))) =
       [D1Query ''DELETE FROM memories WHERE id = ? AND userId = ?'' [''gone'', ''u1'']]"
proof -
  have 1: "\<forall>r \<in> set (memories world). \<not> targets ''gone'' ''u1'' r"
    by (simp add: world_def targets_def)
  have 2: "\<forall>r \<in> set (memories (world\<lparr>outcomes := [Some ''D1 down'']\<rparr>)). \<not> targets ''gone'' ''u1'' r"
    by (simp add: world_def targets_def)
  have g: "goes_through world" by (simp add: goes_through_def world_def)
  have h: "\<not> goes_through (world\<lparr>outcomes := [Some ''D1 down'']\<rparr>)"
    by (simp add: goes_through_def)
  have c: "calls world = []" "calls (world\<lparr>outcomes := [Some ''D1 down'']\<rparr>) = []"
    by (simp_all add: world_def)
  show ?thesis
    using delete_missing_reports_success[OF 1] delete_missing_reports_success[OF 2] g h
    by (simp add: c)
qed

text \<open>
  C7. The derivation does not take what follows the last \<open>@\<close>. The pattern is anchored at the
  end of the sender to reach the domain of the address, but the match is the leftmost one and
  its group runs across every later \<open>@\<close>: on a sender whose display name is itself an
  address, and on one with two \<open>@\<close>, the code yields a label that is not the first label of
  the domain, where the rule of the claim yields that label.
\<close>

theorem company_derivation_crosses_earlier_at:
  "extractCompanyFromEmail ''john@acme.com <john@acme.com>'' = Some ''com <john@acme''
   \<and> spec_company ''john@acme.com <john@acme.com>'' = Some ''acme''
   \<and> extractCompanyFromEmail ''a@b@c.com'' = Some ''b@c''
   \<and> spec_company ''a@b@c.com'' = Some ''c''"
  by (simp add: extractCompanyFromEmail_def tail_match_def toLowerCase_def isUpper_def
      first_label_def spec_company_def after_last_at_def strip_trailing_bracket_def)

text \<open>
  C8. The claim as stated, one query for every list of ids, fails for the empty list: no query
  is made.
\<close>

theorem metadata_lookup_empty_counterexample:
  "calls world = [] \<and> calls (snd (getEmailsMetadata [] ''u1'' world)) = []"
  by (simp add: getEmailsMetadata_def world_def)

text \<open>
  C8, amended. For the empty list of ids the batched metadata lookup makes no store query and
  returns the empty map, the environment as it was. For a non-empty list, whatever its length,
  it makes exactly one: a single \<open>SELECT\<close> with one placeholder per id, bound to all the ids
  followed by the owner.
\<close>

theorem metadata_lookup_is_one_query:
  "getEmailsMetadata [] userId env = (Inr empty_object, env)
   \<and> calls (snd (getEmailsMetadata memoryIds userId env)) =
     calls env @
       (if memoryIds = [] then []
        else [D1Query (''SELECT * FROM emails WHERE memoryId IN ('' @
                         join '','' (map (\<lambda>_. ''?'') memoryIds) @ '') AND userId = ?'')
                      (memoryIds @ [userId])])
   \<and> length (calls (snd (getEmailsMetadata memoryIds userId env))) =
       length (calls env) + (if memoryIds = [] then 0 else 1)"
proof (intro conjI)
  show "getEmailsMetadata [] userId env = (Inr empty_object, env)"
    by (simp add: getEmailsMetadata_def)
  show c: "calls (snd (getEmailsMetadata memoryIds userId env)) =
     calls env @
       (if memoryIds = [] then []
        else [D1Query (''SELECT * FROM emails WHERE memoryId IN ('' @
                         join '','' (map (\<lambda>_. ''?'') memoryIds) @ '') AND userId = ?'')
                      (memoryIds @ [userId])])"
    by (auto simp: getEmailsMetadata_def d1_def external_def sql_select_emails_in_def Let_def
        split: list.splits option.splits sum.splits prod.splits)
  show "length (calls (snd (getEmailsMetadata memoryIds userId env))) =
       length (calls env) + (if memoryIds = [] then 0 else 1)"
    by (simp add: c)
qed

theorem metadata_lookup_is_one_query_witness:
  "getEmailsMetadata [] ''u1'' world = (Inr empty_object, world)
   \<and> calls (snd (getEmailsMetadata [''m1'', ''gone'', ''m2''] ''u1'' world)) =
     [D1Query ''SELECT * FROM emails WHERE memoryId IN (?,?,?) AND userId = ?''
        [''m1'', ''gone'', ''m2'', ''u1'']]"
  using metadata_lookup_is_one_query[of "''u1''" world "[''m1'', ''gone'', ''m2'']"]
  by (simp add: world_def)

text \<open>
  C9. A structured create whose subject, body or sender is missing or empty, or whose body is
  \<open>null\<close> or not JSON, is answered 400 with the environment as it was: no store or index
  call is made. An update whose content is missing, not a string or empty after trimming is
  answered 400 with the environment as it was; one whose body is not JSON is answered 400 and
  only the console has a new line.
\<close>

theorem validation_before_side_effects:
  "(\<not> truthy (j_subject email) \<or> \<not> truthy (j_body email) \<or> \<not> truthy (j_sender email) \<longrightarrow>
      post_emails_route userId (Parsed (Some email)) env uuid =
        (\<lparr>status = 400, reply = Failure ''Missing required email fields''\<rparr>, env))
   \<and> post_emails_route userId (Parsed None) env uuid =
        (\<lparr>status = 400, reply = Failure ''Invalid JSON body''\<rparr>, env)
   \<and> post_emails_route userId (ParseFailure err) env uuid =
        (\<lparr>status = 400, reply = Failure ''Invalid JSON body''\<rparr>, env)
   \<and> ((case b of None \<Rightarrow> True
        | Some b' \<Rightarrow> (case content b' of None \<Rightarrow> True | Some c \<Rightarrow> trim c = [])) \<longrightarrow>
      put_memory_route userId memoryId (Parsed b) env =
        (\<lparr>status = 400, reply = Failure ''Invalid or missing content in request body''\<rparr>, env))
   \<and> put_memory_route userId memoryId (ParseFailure err) env =
        (\<lparr>status = 400, reply = Failure ''Failed to parse request body''\<rparr>,
         env\<lparr>console := console env @ [ConsoleError ''Failed to parse request body:'' err]\<rparr>)"
  by (auto simp: post_emails_route_def put_memory_route_def console_error_def split: option.splits)

theorem validation_before_side_effects_witness:
  "post_emails_route ''u1''
     (Parsed (Some \<lparr>j_subject = Some ''Offer'', j_body = Some [], j_sender = Some ''a@acme.com'',
                    j_recipients = None, j_date = None, j_company = None, j_messageId = None,
                    j_inReplyTo = None\<rparr>)) world ''m3'' =
     (\<lparr>status = 400, reply = Failure ''Missing required email fields''\<rparr>, world)
   \<and> put_memory_route ''u1'' ''m1'' (Parsed (Some \<lparr>content = Some [CHR 0x20, CHR 0x09]\<rparr>)) world =
     (\<lparr>status = 400, reply = Failure ''Invalid or missing content in request body''\<rparr>, world)"
proof -
  note v = validation_before_side_effects
    [of "\<lparr>j_subject = Some ''Offer'', j_body = Some [], j_sender = Some ''a@acme.com'',
          j_recipients = None, j_date = None, j_company = None, j_messageId = None,
          j_inReplyTo = None\<rparr>" "''u1''" world "''m3''" _ "Some \<lparr>content = Some [CHR 0x20, CHR 0x09]\<rparr>" "''m1''"]
  have 1: "\<not> truthy (j_body \<lparr>j_subject = Some ''Offer'', j_body = Some [], j_sender = Some ''a@acme.com'',
          j_recipients = None, j_date = None, j_company = None, j_messageId = None,
          j_inReplyTo = None\<rparr>)"
    by (simp add: truthy_def)
  have 2: "trim [CHR 0x20, CHR 0x09] = []"
    by (simp add: trim_def isWhiteSpace_def)
  show ?thesis
    using v 1 2 by simp
qed

text \<open>
  C10. The search with the empty string as company filter is the search with no filter: the
  same outcome and the same environment, for every query, owner and ranking.
\<close>

theorem empty_company_filter_is_no_filter:
  "searchEmailMemories searchMemories query userId env (Some []) =
   searchEmailMemories searchMemories query userId env None"
  by (simp add: searchEmailMemories_def merge_match_empty_filter Let_def
      split: sum.splits prod.splits)

theorem empty_company_filter_is_no_filter_witness:
  "fst (searchEmailMemories ranking ''offer'' ''u1'' world (Some [])) =
     Inr [Hit sub_row 9, Hit acme_row 7]"
proof -
  have "fst (searchEmailMemories ranking ''offer'' ''u1'' world None) =
      Inr [Hit sub_row 9, Hit acme_row 7]"
    by (simp add: search_defs run_defs ranking_def world_def acme_row_def sub_row_def)
  then show ?thesis
    by (simp only: empty_company_filter_is_no_filter[of ranking "''offer''" "''u1''" world])
qed

end
